theory Spec2Isabelle
  imports Main
begin

section \<open>JavaScript strings and numbers\<close>

text \<open>
  A JavaScript string is modelled as a \<^typ>\<open>string\<close>, one \<^typ>\<open>char\<close> per code unit, so
  that \<open>length\<close> is the source's \<open>.length\<close>. Indices and lengths handed to the formatter
  are integers (the tool schema's \<open>number\<close> restricted to integral values).
\<close>

definition newline :: string where
  "newline = [CHR 0x0A]"

text \<open>\<open>String.prototype.substring(a, b)\<close>: both bounds are clamped to \<open>[0, length]\<close> and
  swapped when the first exceeds the second.\<close>

definition substring :: "string \<Rightarrow> int \<Rightarrow> int \<Rightarrow> string" where
  "substring s a b =
     (let n = int (length s);
          a' = max 0 (min a n);
          b' = max 0 (min b n);
          lo = min a' b';
          hi = max a' b'
      in take (nat (hi - lo)) (drop (nat lo) s))"

text \<open>Decimal rendering of a number inside a template literal.\<close>

definition digit_char :: "nat \<Rightarrow> char" where
  "digit_char d = ''0123456789'' ! (d mod 10)"

fun nat_to_string :: "nat \<Rightarrow> string" where
  "nat_to_string n =
     (if n < 10 then [digit_char n] else nat_to_string (n div 10) @ [digit_char (n mod 10)])"

declare nat_to_string.simps [simp del]

definition number_to_string :: "int \<Rightarrow> string" where
  "number_to_string i = (if i < 0 then CHR ''-'' # nat_to_string (nat (- i)) else nat_to_string (nat i))"

text \<open>Reading a decimal numeral back, as the caller of the tool does with the index it is told.\<close>

definition digit_value :: "char \<Rightarrow> nat" where
  "digit_value c = of_char c - 48"

definition string_to_nat :: "string \<Rightarrow> nat" where
  "string_to_nat s = foldl (\<lambda>acc c. 10 * acc + digit_value c) 0 s"

section \<open>Pagination formatter (utils.ts)\<close>

definition no_more_content :: "string \<Rightarrow> string" where
  "no_more_content url =
     ''AWS Documentation from '' @ url @ '':'' @ newline @ newline @ ''<e>No more content available.</e>''"

definition source_prefix :: "string \<Rightarrow> string" where
  "source_prefix url = ''AWS Documentation from '' @ url @ '':'' @ newline @ newline"

definition continuation_note :: "int \<Rightarrow> string" where
  "continuation_note nextStart =
     newline @ newline @ ''<e>Content truncated. Call the read_documentation tool with start_index=''
       @ number_to_string nextStart @ '' to get more content.</e>''"

definition formatDocumentationResult :: "string \<Rightarrow> string \<Rightarrow> int \<Rightarrow> int \<Rightarrow> string" where
  "formatDocumentationResult url content startIndex maxLength =
     (let originalLength = int (length content) in
      if startIndex \<ge> originalLength then no_more_content url
      else
        let endIndex = min (startIndex + maxLength) originalLength;
            truncatedContent = substring content startIndex endIndex
        in if truncatedContent = [] then no_more_content url
           else
             let actualContentLength = int (length truncatedContent);
                 remainingContent = originalLength - (startIndex + actualContentLength);
                 result = source_prefix url @ truncatedContent
             in if remainingContent > 0
                then (let nextStart = startIndex + actualContentLength
                      in result @ continuation_note nextStart)
                else result)"

section \<open>Thrown values\<close>

text \<open>
  A thrown JavaScript error: its \<open>name\<close> (\<open>Error\<close>, \<open>TypeError\<close>, ...) and its \<open>message\<close>.
  A function that may throw returns \<open>js_error + 'a\<close>, \<open>Inl\<close> being the throw.
\<close>

datatype js_error = JsError (err_name: string) (err_message: string)

definition new_Error :: "string \<Rightarrow> js_error" where
  "new_Error msg = JsError ''Error'' msg"

text \<open>Reading a property of \<open>undefined\<close>; the message text is the engine's.\<close>

definition undefined_property_error :: "string \<Rightarrow> js_error" where
  "undefined_property_error prop =
     JsError ''TypeError'' (''Cannot read properties of undefined (reading '' @ [CHR 0x27] @ prop @ [CHR 0x27] @ '')'')"

text \<open>An error inside a template literal: \<open>Error.prototype.toString\<close>.\<close>

definition error_to_string :: "js_error \<Rightarrow> string" where
  "error_to_string e =
     (if err_name e = [] then err_message e
      else if err_message e = [] then err_name e
      else err_name e @ '': '' @ err_message e)"

definition bind_err :: "'e + 'a \<Rightarrow> ('a \<Rightarrow> 'e + 'b) \<Rightarrow> 'e + 'b" where
  "bind_err r f = (case r of Inl e \<Rightarrow> Inl e | Inr v \<Rightarrow> f v)"

text \<open>An optional string inside a template literal: \<open>undefined\<close> prints as the word.\<close>

definition template_string :: "string option \<Rightarrow> string" where
  "template_string v = (case v of None \<Rightarrow> ''undefined'' | Some s \<Rightarrow> s)"

text \<open>\<open>v || d\<close> on an optional string: absent and empty are both falsy.\<close>

definition or_string :: "string option \<Rightarrow> string \<Rightarrow> string" where
  "or_string v d = (case v of None \<Rightarrow> d | Some s \<Rightarrow> if s = [] then d else s)"

text \<open>\<open>v || d\<close> on an optional number: absent and zero are both falsy.\<close>

definition or_number :: "int option \<Rightarrow> int \<Rightarrow> int" where
  "or_number v d = (case v of None \<Rightarrow> d | Some n \<Rightarrow> if n = 0 then d else n)"

definition starts_with :: "string \<Rightarrow> string \<Rightarrow> bool" where
  "starts_with s p = (take (length p) s = p)"

definition ends_with :: "string \<Rightarrow> string \<Rightarrow> bool" where
  "ends_with s suffix = (length suffix \<le> length s \<and> drop (length s - length suffix) s = suffix)"

text \<open>\<open>String.prototype.includes\<close>: the needle occurs at some position.\<close>

fun js_includes :: "string \<Rightarrow> string \<Rightarrow> bool" where
  "js_includes [] needle = (needle = [])"
| "js_includes (c # cs) needle = (starts_with (c # cs) needle \<or> js_includes cs needle)"

section \<open>A caller that follows the continuation instructions\<close>

text \<open>
  The caller of the tool sees only the text a call returns. It knows the wording of the
  continuation instruction and reads the next \<open>start_index\<close> out of the returned text:
  \<open>read_instruction\<close> takes what the text holds after the source label and the content
  slice, and answers the number it names, if it is an instruction.
\<close>

definition instruction_head :: string where
  "instruction_head =
     [CHR 0x0A, CHR 0x0A] @ ''<e>Content truncated. Call the read_documentation tool with start_index=''"

definition instruction_tail :: string where
  "instruction_tail = '' to get more content.</e>''"

definition is_digit :: "char \<Rightarrow> bool" where
  "is_digit c = (c \<in> set ''0123456789'')"

definition read_instruction :: "string \<Rightarrow> nat option" where
  "read_instruction appended =
     (if starts_with appended instruction_head \<and> ends_with appended instruction_tail
         \<and> length instruction_head + length instruction_tail < length appended
      then
        let digits = take (length appended - length instruction_head - length instruction_tail)
                       (drop (length instruction_head) appended)
        in if list_all is_digit digits then Some (string_to_nat digits) else None
      else None)"

text \<open>The content slice a returned page carries: the formatter's \<open>truncatedContent\<close>, and
  nothing when the start index is at or past the end.\<close>

definition returned_slice :: "string \<Rightarrow> int \<Rightarrow> int \<Rightarrow> string" where
  "returned_slice content startIndex maxLength =
     (let originalLength = int (length content) in
      if startIndex \<ge> originalLength then []
      else substring content startIndex (min (startIndex + maxLength) originalLength))"

text \<open>What the returned text holds after the source label and the slice.\<close>

definition appended_text :: "string \<Rightarrow> string \<Rightarrow> string \<Rightarrow> string" where
  "appended_text url slice returned =
     drop (length (''AWS Documentation from '' @ url @ '':'' @ [CHR 0x0A, CHR 0x0A] @ slice)) returned"

text \<open>
  The caller's loop: call the formatter at an index, keep the text and its slice, and go on
  at the index the text names, until a text names none. Each entry is the start index, the
  returned text and the slice.
\<close>

function read_all :: "string \<Rightarrow> string \<Rightarrow> int \<Rightarrow> int \<Rightarrow> (int \<times> string \<times> string) list" where
  "read_all url content maxLength startIndex =
     (let returned = formatDocumentationResult url content startIndex maxLength;
          slice = returned_slice content startIndex maxLength
      in case read_instruction (appended_text url slice returned) of
           None \<Rightarrow> [(startIndex, returned, slice)]
         | Some nextStart \<Rightarrow>
             (startIndex, returned, slice) # read_all url content maxLength (int nextStart))"
  by pat_completeness auto

text \<open>The slices of the pages read, concatenated in reading order.\<close>

fun reassemble :: "(int \<times> string \<times> string) list \<Rightarrow> string" where
  "reassemble [] = []"
| "reassemble ((startIndex, returned, slice) # rest) = slice @ reassemble rest"

section \<open>Content extractor (utils.ts)\<close>

text \<open>
  The markup parser (node-html-parser) and the markdown converter (turndown) are external
  packages: they are parameters of the model. Every call into them may throw. Removing
  elements mutates the tree in place, so \<open>lib_removeAll\<close> (\<open>querySelectorAll\<close> followed by
  \<open>remove\<close> on each match) returns the tree after the removal.
\<close>

record 'node html_lib =
  lib_parse :: "string \<Rightarrow> js_error + 'node"
  lib_querySelector :: "'node \<Rightarrow> string \<Rightarrow> js_error + 'node option"
  lib_removeAll :: "'node \<Rightarrow> string \<Rightarrow> js_error + 'node"
  lib_innerHTML :: "'node \<Rightarrow> js_error + string"
  lib_turndown :: "string \<Rightarrow> js_error + string"

definition contentSelectors :: "string list" where
  "contentSelectors =
     [''main'', ''article'', ''#main-content'', ''.main-content'', ''#content'', ''.content'',
      ''div[role='' @ [CHR 0x27] @ ''main'' @ [CHR 0x27] @ '']'', ''#awsdocs-content'', ''.awsui-article'']"

definition navSelectors :: "string list" where
  "navSelectors =
     [''noscript'', ''.prev-next'', ''#main-col-footer'', ''.awsdocs-page-utilities'',
      ''#quick-feedback-yes'', ''#quick-feedback-no'', ''.page-loading-indicator'', ''#tools-panel'',
      ''.doc-cookie-banner'', ''awsdocs-copyright'', ''awsdocs-thumb-feedback'', ''script'', ''style'',
      ''meta'', ''link'', ''footer'', ''nav'', ''aside'', ''header'']"

text \<open>The first selector that matches wins; \<open>None\<close> when none does.\<close>

fun find_main_content :: "'node html_lib \<Rightarrow> 'node \<Rightarrow> string list \<Rightarrow> js_error + 'node option" where
  "find_main_content lib root [] = Inr None"
| "find_main_content lib root (selector # rest) =
     bind_err (lib_querySelector lib root selector)
       (\<lambda>content. case content of Some c \<Rightarrow> Inr (Some c) | None \<Rightarrow> find_main_content lib root rest)"

fun remove_noise :: "'node html_lib \<Rightarrow> 'node \<Rightarrow> string list \<Rightarrow> js_error + 'node" where
  "remove_noise lib mainContent [] = Inr mainContent"
| "remove_noise lib mainContent (selector # rest) =
     bind_err (lib_removeAll lib mainContent selector) (\<lambda>m. remove_noise lib m rest)"

text \<open>The body of the \<open>try\<close> block: \<open>Inl\<close> is what the \<open>catch\<close> clause receives.\<close>

definition extract_try :: "'node html_lib \<Rightarrow> string \<Rightarrow> js_error + string" where
  "extract_try lib html =
     bind_err (lib_parse lib html) (\<lambda>root.
     bind_err (find_main_content lib root contentSelectors) (\<lambda>found.
     bind_err (case found of
                 Some c \<Rightarrow> Inr c
               | None \<Rightarrow> bind_err (lib_querySelector lib root ''body'')
                           (\<lambda>body. Inr (case body of Some b \<Rightarrow> b | None \<Rightarrow> root))) (\<lambda>mainContent.
     bind_err (remove_noise lib mainContent navSelectors) (\<lambda>cleaned.
     bind_err (lib_innerHTML lib cleaned) (\<lambda>inner.
     bind_err (lib_turndown lib inner) (\<lambda>markdown.
       if markdown = [] then Inr ''<e>Page failed to be simplified from HTML</e>''
       else Inr markdown))))))"

definition extractContentFromHtml :: "'node html_lib \<Rightarrow> string \<Rightarrow> string" where
  "extractContentFromHtml lib html =
     (if html = [] then ''<e>Empty HTML content</e>''
      else case extract_try lib html of
             Inr markdown \<Rightarrow> markdown
           | Inl error \<Rightarrow> ''<e>Error converting HTML to Markdown: '' @ error_to_string error @ ''</e>'')"

definition isHtmlContent :: "string \<Rightarrow> string \<Rightarrow> bool" where
  "isHtmlContent pageRaw contentType =
     (js_includes (substring pageRaw 0 100) ''<html''
      \<or> js_includes contentType ''text/html''
      \<or> contentType = [])"

section \<open>Upstream clients (tools.ts)\<close>

text \<open>
  The network is a parameter: \<open>fetch\<close> maps a request to a thrown error or a response, and
  reading the response's payload (\<open>text()\<close>, \<open>json()\<close>) may throw as well. Every client
  returns its outcome together with the requests it issued, in order, so that "no network
  call" is the empty list.
\<close>

datatype request_body = NoBody | SearchBody "string option"

record request =
  req_url :: string
  req_method :: string
  req_headers :: "(string \<times> string) list"
  req_body :: request_body

record 'd response =
  resp_ok :: bool
  resp_status :: nat
  resp_content_type :: "string option"
  resp_payload :: "js_error + 'd"

definition DEFAULT_USER_AGENT :: string where
  "DEFAULT_USER_AGENT = ''Mozilla/5.0 (Windows NT 10.0; Win64; x64) AppleWebKit/537.36 (KHTML, like Gecko) Chrome/91.0.4472.124 Safari/537.36 ModelContextProtocol/1.1.0 (AWS Documentation Server)''"

definition getUserAgent :: string where
  "getUserAgent = DEFAULT_USER_AGENT"

text \<open>The regular expression \<open>^https?:\/\/docs\.aws\.amazon\.com\/\<close>.\<close>

definition matches_docs_origin :: "string \<Rightarrow> bool" where
  "matches_docs_origin url =
     (starts_with url ''http://docs.aws.amazon.com/'' \<or> starts_with url ''https://docs.aws.amazon.com/'')"

definition page_request :: "string \<Rightarrow> string \<Rightarrow> request" where
  "page_request url sessionId =
     \<lparr> req_url = url @ ''?session='' @ sessionId,
       req_method = ''GET'',
       req_headers = [(''User-Agent'', getUserAgent), (''X-MCP-Session-Id'', sessionId)],
       req_body = NoBody \<rparr>"

text \<open>The content handed to the formatter once the page body has been read.\<close>

definition page_content :: "'node html_lib \<Rightarrow> string \<Rightarrow> string option \<Rightarrow> string" where
  "page_content lib pageRaw contentTypeHeader =
     (let contentType = or_string contentTypeHeader [] in
      if isHtmlContent pageRaw contentType then extractContentFromHtml lib pageRaw else pageRaw)"

definition readDocumentation ::
  "'node html_lib \<Rightarrow> (request \<Rightarrow> js_error + string response) \<Rightarrow>
     string option \<Rightarrow> int \<Rightarrow> int \<Rightarrow> string \<Rightarrow> (js_error + string) \<times> request list" where
  "readDocumentation lib fetch url maxLength startIndex sessionId =
     (case url of
        None \<Rightarrow> (Inl (undefined_property_error ''match''), [])
      | Some u \<Rightarrow>
          if \<not> matches_docs_origin u then (Inl (new_Error ''URL must be from the docs.aws.amazon.com domain''), [])
          else if \<not> ends_with u ''.html'' then (Inl (new_Error ''URL must end with .html''), [])
          else
            let req = page_request u sessionId;
                attempt =
                  bind_err (fetch req) (\<lambda>response.
                    if \<not> resp_ok response
                    then Inl (new_Error (''Failed to fetch '' @ u @ '' - status code ''
                                           @ nat_to_string (resp_status response)))
                    else bind_err (resp_payload response) (\<lambda>pageRaw.
                      Inr (formatDocumentationResult u
                             (page_content lib pageRaw (resp_content_type response)) startIndex maxLength)))
            in (case attempt of
                  Inr text \<Rightarrow> Inr text
                | Inl error \<Rightarrow> Inl (new_Error (''Failed to fetch '' @ u @ '': '' @ error_to_string error)),
                [req]))"

subsection \<open>Search\<close>

definition SEARCH_API_URL :: string where
  "SEARCH_API_URL = ''https://proxy.search.docs.aws.amazon.com/search''"

definition RECOMMENDATIONS_API_URL :: string where
  "RECOMMENDATIONS_API_URL = ''https://contentrecs-api.docs.aws.amazon.com/v1/recommendations''"

text \<open>The part of the search response the client reads; an absent property is \<open>None\<close>.\<close>

record text_suggestion =
  ts_summary :: "string option"
  ts_suggestionBody :: "string option"
  ts_link :: "string option"
  ts_title :: "string option"

record suggestion =
  textExcerptSuggestion :: "text_suggestion option"

record search_data =
  suggestions :: "suggestion list option"

record SearchResult =
  rank_order :: int
  sr_url :: string
  sr_title :: string
  sr_context :: "string option"

definition suggestion_context :: "text_suggestion \<Rightarrow> string option" where
  "suggestion_context textSuggestion =
     (if or_string (ts_summary textSuggestion) [] \<noteq> [] then ts_summary textSuggestion
      else if or_string (ts_suggestionBody textSuggestion) [] \<noteq> [] then ts_suggestionBody textSuggestion
      else None)"

text \<open>The \<open>for\<close> loop over \<open>i\<close>, with \<open>bound = Math.min(data.suggestions.length, limit)\<close>.\<close>

function search_loop :: "suggestion list \<Rightarrow> int \<Rightarrow> nat \<Rightarrow> SearchResult list \<Rightarrow> SearchResult list" where
  "search_loop suggs bound i results =
     (if int i < bound then
        (case textExcerptSuggestion (suggs ! i) of
           Some textSuggestion \<Rightarrow>
             search_loop suggs bound (i + 1)
               (results @ [\<lparr> rank_order = int i + 1,
                              sr_url = or_string (ts_link textSuggestion) [],
                              sr_title = or_string (ts_title textSuggestion) [],
                              sr_context = suggestion_context textSuggestion \<rparr>])
         | None \<Rightarrow> search_loop suggs bound (i + 1) results)
      else results)"
  by pat_completeness auto

termination
  by (relation "measure (\<lambda>(suggs, bound, i, results). nat (bound - int i))") auto

declare search_loop.simps [simp del]

definition parse_search_results :: "search_data \<Rightarrow> int \<Rightarrow> SearchResult list" where
  "parse_search_results data limit =
     (case suggestions data of
        None \<Rightarrow> []
      | Some suggs \<Rightarrow> search_loop suggs (min (int (length suggs)) limit) 0 [])"

definition search_request :: "string option \<Rightarrow> string \<Rightarrow> request" where
  "search_request searchPhrase sessionId =
     \<lparr> req_url = SEARCH_API_URL @ ''?session='' @ sessionId,
       req_method = ''POST'',
       req_headers = [(''Content-Type'', ''application/json''), (''User-Agent'', getUserAgent),
                      (''X-MCP-Session-Id'', sessionId)],
       req_body = SearchBody searchPhrase \<rparr>"

definition searchDocumentation ::
  "(request \<Rightarrow> js_error + search_data response) \<Rightarrow>
     string option \<Rightarrow> int \<Rightarrow> string \<Rightarrow> (js_error + SearchResult list) \<times> request list" where
  "searchDocumentation fetch searchPhrase limit sessionId =
     (let req = search_request searchPhrase sessionId;
          attempt =
            bind_err (fetch req) (\<lambda>response.
              if \<not> resp_ok response
              then Inl (new_Error (''Error searching AWS docs - status code ''
                                     @ nat_to_string (resp_status response)))
              else bind_err (resp_payload response) (\<lambda>data. Inr (parse_search_results data limit)))
      in (case attempt of
            Inr results \<Rightarrow> Inr results
          | Inl error \<Rightarrow> Inl (new_Error (''Error searching AWS docs: '' @ error_to_string error)),
          [req]))"

subsection \<open>Recommendations\<close>

record rec_item =
  item_url :: "string option"
  item_assetTitle :: "string option"
  item_abstract :: "string option"
  item_dateCreated :: "string option"

record intent_group =
  ig_intent :: "string option"
  ig_urls :: "rec_item list option"

text \<open>Each field is \<open>data.<group>?.items\<close>: \<open>None\<close> when the group or its items are absent.\<close>

record rec_data =
  highlyRated_items :: "rec_item list option"
  journey_items :: "intent_group list option"
  new_items :: "rec_item list option"
  similar_items :: "rec_item list option"

record RecommendationResult =
  rr_url :: string
  rr_title :: string
  rr_context :: "string option"

definition rec_result :: "rec_item \<Rightarrow> string option \<Rightarrow> RecommendationResult" where
  "rec_result item context =
     \<lparr> rr_url = or_string (item_url item) [], rr_title = or_string (item_assetTitle item) [],
       rr_context = context \<rparr>"

definition truthy_string :: "string option \<Rightarrow> string option" where
  "truthy_string v = (if or_string v [] = [] then None else v)"

definition parseRecommendationResults :: "rec_data \<Rightarrow> RecommendationResult list" where
  "parseRecommendationResults data =
     (case highlyRated_items data of None \<Rightarrow> []
      | Some items \<Rightarrow> map (\<lambda>item. rec_result item (truthy_string (item_abstract item))) items)
     @ (case journey_items data of None \<Rightarrow> []
        | Some groups \<Rightarrow>
            concat (map (\<lambda>intentGroup.
              let intent = or_string (ig_intent intentGroup) [] in
              case ig_urls intentGroup of None \<Rightarrow> []
              | Some urls \<Rightarrow>
                  map (\<lambda>urlItem. rec_result urlItem
                         (if intent \<noteq> [] then Some (''Intent: '' @ intent) else None)) urls) groups))
     @ (case new_items data of None \<Rightarrow> []
        | Some items \<Rightarrow>
            map (\<lambda>item.
              let dateCreated = or_string (item_dateCreated item) [] in
              rec_result item (Some (if dateCreated \<noteq> [] then ''New content added on '' @ dateCreated
                                     else ''New content''))) items)
     @ (case similar_items data of None \<Rightarrow> []
        | Some items \<Rightarrow>
            map (\<lambda>item. rec_result item (Some (or_string (item_abstract item) ''Similar content''))) items)"

definition recommend_request :: "string option \<Rightarrow> string \<Rightarrow> request" where
  "recommend_request url sessionId =
     \<lparr> req_url = RECOMMENDATIONS_API_URL @ ''?path='' @ template_string url @ ''&session='' @ sessionId,
       req_method = ''GET'',
       req_headers = [(''User-Agent'', getUserAgent)],
       req_body = NoBody \<rparr>"

definition recommend ::
  "(request \<Rightarrow> js_error + rec_data response) \<Rightarrow>
     string option \<Rightarrow> string \<Rightarrow> (js_error + RecommendationResult list) \<times> request list" where
  "recommend fetch url sessionId =
     (let req = recommend_request url sessionId;
          attempt =
            bind_err (fetch req) (\<lambda>response.
              if \<not> resp_ok response
              then Inl (new_Error (''Error getting recommendations - status code ''
                                     @ nat_to_string (resp_status response)))
              else bind_err (resp_payload response) (\<lambda>data. Inr (parseRecommendationResults data)))
      in (case attempt of
            Inr results \<Rightarrow> Inr results
          | Inl error \<Rightarrow> Inl (new_Error (''Error getting recommendations: '' @ error_to_string error)),
          [req]))"


section \<open>Tool registry and RPC dispatcher (class MCPServer)\<close>

text \<open>
  An inbound message. Absent properties are \<open>None\<close>; tool arguments are read at the types
  their schema declares (strings and integers).
\<close>

datatype msg_id = IdNum int | IdStr string

record tool_args =
  arg_url :: "string option"
  arg_max_length :: "int option"
  arg_start_index :: "int option"
  arg_search_phrase :: "string option"
  arg_limit :: "int option"

record call_params =
  param_name :: "string option"
  param_arguments :: "tool_args option"

record MCPMessage =
  msg_id :: "msg_id option"
  msg_method :: "string option"
  msg_params :: "call_params option"

definition no_args :: tool_args where
  "no_args = \<lparr> arg_url = None, arg_max_length = None, arg_start_index = None,
               arg_search_phrase = None, arg_limit = None \<rparr>"

text \<open>\<open>TOOL_DEFINITIONS\<close>: the name and the \<open>required\<close> list of each tool's schema.\<close>

definition TOOL_DEFINITIONS :: "(string \<times> string list) list" where
  "TOOL_DEFINITIONS =
     [(''read_documentation'', [''url'']),
      (''search_documentation'', [''search_phrase'']),
      (''recommend'', [''url''])]"

text \<open>The keys of the \<open>tools\<close> map filled by the constructor.\<close>

definition registered_tools :: "string list" where
  "registered_tools = [''read_documentation'', ''search_documentation'', ''recommend'']"

text \<open>What a tool returns, and the \<open>text\<close> the dispatcher wraps: a string result as it is,
  any other result through \<open>JSON.stringify\<close> (kept here as the value that is serialised).\<close>

datatype tool_value =
    TextValue string
  | SearchValue "SearchResult list"
  | RecommendValue "RecommendationResult list"

datatype rpc_result =
    InitializeResult
  | ToolsListResult "(string \<times> string list) list"
  | ToolCallResult tool_value

datatype envelope =
    ResultEnvelope msg_id rpc_result
  | ErrorEnvelope msg_id int string

record 'node upstream =
  up_lib :: "'node html_lib"
  up_fetch_page :: "request \<Rightarrow> js_error + string response"
  up_fetch_search :: "request \<Rightarrow> js_error + search_data response"
  up_fetch_recs :: "request \<Rightarrow> js_error + rec_data response"

text \<open>\<open>!message.id\<close>: an absent id, the number 0 and the empty string are falsy.\<close>

definition id_truthy :: "msg_id option \<Rightarrow> bool" where
  "id_truthy i = (case i of None \<Rightarrow> False | Some (IdNum n) \<Rightarrow> n \<noteq> 0 | Some (IdStr s) \<Rightarrow> s \<noteq> [])"

definition map_outcome :: "('a \<Rightarrow> 'b) \<Rightarrow> (js_error + 'a) \<times> request list \<Rightarrow> (js_error + 'b) \<times> request list" where
  "map_outcome f r = (case fst r of Inl e \<Rightarrow> (Inl e, snd r) | Inr v \<Rightarrow> (Inr (f v), snd r))"

text \<open>The inner \<open>switch (toolName)\<close> of \<open>tools/call\<close>, with the defaults applied by \<open>||\<close>.\<close>

definition invoke_tool ::
  "'node upstream \<Rightarrow> string \<Rightarrow> string \<Rightarrow> tool_args \<Rightarrow> (js_error + tool_value) \<times> request list" where
  "invoke_tool up sessionId toolName args =
     (if toolName = ''read_documentation'' then
        map_outcome TextValue
          (readDocumentation (up_lib up) (up_fetch_page up) (arg_url args)
             (or_number (arg_max_length args) 5000) (or_number (arg_start_index args) 0) sessionId)
      else if toolName = ''search_documentation'' then
        map_outcome SearchValue
          (searchDocumentation (up_fetch_search up) (arg_search_phrase args)
             (or_number (arg_limit args) 10) sessionId)
      else if toolName = ''recommend'' then
        map_outcome RecommendValue (recommend (up_fetch_recs up) (arg_url args) sessionId)
      else (Inl (new_Error (''Unhandled tool: '' @ toolName)), []))"

text \<open>
  \<open>MCPServer.handleMessage\<close>. \<open>now\<close> is the value of \<open>Date.now()\<close>. The first component of
  the result is \<open>Inl\<close> when the call throws (the promise rejects) and \<open>Inr\<close> the returned
  envelope otherwise; the second lists the upstream requests issued.
\<close>

definition handleMessage ::
  "'node upstream \<Rightarrow> nat \<Rightarrow> MCPMessage \<Rightarrow> (js_error + envelope) \<times> request list" where
  "handleMessage up now message =
     (case msg_id message of
        None \<Rightarrow> (Inl (new_Error ''Message must have an id''), [])
      | Some mid \<Rightarrow>
        if \<not> id_truthy (Some mid) then (Inl (new_Error ''Message must have an id''), [])
        else if msg_method message = Some ''initialize'' then (Inr (ResultEnvelope mid InitializeResult), [])
        else if msg_method message = Some ''tools/list''
          then (Inr (ResultEnvelope mid (ToolsListResult TOOL_DEFINITIONS)), [])
        else if msg_method message = Some ''tools/call'' then
          (let toolName = (case msg_params message of None \<Rightarrow> None | Some p \<Rightarrow> param_name p);
               args = (case msg_params message of None \<Rightarrow> no_args
                       | Some p \<Rightarrow> (case param_arguments p of None \<Rightarrow> no_args | Some a \<Rightarrow> a))
           in if or_string toolName [] = [] \<or> or_string toolName [] \<notin> set registered_tools
              then (Inr (ErrorEnvelope mid (- 32601) (''Unknown tool: '' @ template_string toolName)), [])
              else
                let sessionId = ''mcp-session-'' @ nat_to_string now;
                    outcome = invoke_tool up sessionId (or_string toolName []) args
                in (case fst outcome of
                      Inr result \<Rightarrow> (Inr (ResultEnvelope mid (ToolCallResult result)), snd outcome)
                    | Inl error \<Rightarrow> (Inr (ErrorEnvelope mid (- 32603) (err_message error)), snd outcome)))
        else (Inr (ErrorEnvelope mid (- 32601) (''Unknown method: '' @ template_string (msg_method message))), []))"

section \<open>HTTP tool endpoint (POST /mcp/tools/call)\<close>

text \<open>
  The handler of the HTTP front-end's \<open>/mcp/tools/call\<close> route. \<open>body\<close> is the outcome of
  \<open>c.req.json()\<close> (the request's \<open>params\<close>, or the parse failure), \<open>sessionHeader\<close> the
  \<open>X-MCP-Session-Id\<close> header, \<open>freshId\<close> what \<open>generateSessionId()\<close> would return and
  \<open>sessions\<close> the process-wide session map. The answer is the HTTP status with the JSON
  body, the requests issued and the session map afterwards.
\<close>

datatype http_body = ResultBody tool_value | ErrorBody int string

definition tools_call_endpoint ::
  "'node upstream \<Rightarrow> (js_error + call_params option) \<Rightarrow> string option \<Rightarrow> string \<Rightarrow>
     (string \<rightharpoonup> string) \<Rightarrow> (nat \<times> http_body) \<times> request list \<times> (string \<rightharpoonup> string)" where
  "tools_call_endpoint up body sessionHeader freshId sessions =
     (case body of
        Inl error \<Rightarrow> ((500, ErrorBody (- 32603) (err_message error)), [], sessions)
      | Inr params \<Rightarrow>
          let name = (case params of None \<Rightarrow> None | Some p \<Rightarrow> param_name p) in
          if or_string name [] = []
          then ((400, ErrorBody (- 32602) ''Invalid params: tool name is required''), [], sessions)
          else
            let toolName = or_string name [];
                args = (case params of None \<Rightarrow> no_args
                        | Some p \<Rightarrow> (case param_arguments p of None \<Rightarrow> no_args | Some a \<Rightarrow> a));
                sessionId = or_string sessionHeader freshId;
                sessions' = (if sessionId \<in> dom sessions then sessions else sessions(sessionId \<mapsto> sessionId))
            in if toolName \<in> set [''read_documentation'', ''search_documentation'', ''recommend'']
               then (let outcome = invoke_tool up sessionId toolName args
                     in (case fst outcome of
                           Inr result \<Rightarrow> ((200, ResultBody result), snd outcome, sessions')
                         | Inl error \<Rightarrow> ((500, ErrorBody (- 32603) (err_message error)), snd outcome, sessions')))
               else ((404, ErrorBody (- 32601) (''Unknown tool: '' @ toolName)), [], sessions'))"

section \<open>Stand-alone worker dispatcher (index.ts)\<close>

text \<open>
  \<open>executeTool\<close> and \<open>handleMCPRequest\<close> of the stand-alone worker. Its four tool bodies
  catch every failure themselves and return a text; they are parameters here, since only
  the dispatch around them is examined.
\<close>

record worker_tools =
  wt_readDocumentation :: "string option \<Rightarrow> int \<Rightarrow> int \<Rightarrow> string"
  wt_searchDocumentation :: "string option \<Rightarrow> int \<Rightarrow> string"
  wt_recommend :: "string option \<Rightarrow> string"

datatype worker_result =
    WorkerInitialize
  | WorkerToolsList
  | WorkerToolText string
  | WorkerPing

datatype worker_envelope =
    WorkerResult "msg_id option" worker_result
  | WorkerError "msg_id option" int string

definition executeTool :: "worker_tools \<Rightarrow> string \<Rightarrow> tool_args \<Rightarrow> js_error + string" where
  "executeTool tools name args =
     (if name = ''read_documentation'' then
        Inr (wt_readDocumentation tools (arg_url args)
               (or_number (arg_max_length args) 5000) (or_number (arg_start_index args) 0))
      else if name = ''search_documentation'' then
        Inr (wt_searchDocumentation tools (arg_search_phrase args) (or_number (arg_limit args) 10))
      else if name = ''recommend'' then Inr (wt_recommend tools (arg_url args))
      else if name = ''hello'' then
        Inr ''Hello from the AWS Documentation MCP Server running on Cloudflare Workers!''
      else Inl (new_Error (''Unknown tool: '' @ name)))"

definition handleMCPRequest :: "worker_tools \<Rightarrow> MCPMessage \<Rightarrow> worker_envelope" where
  "handleMCPRequest tools request =
     (let mid = msg_id request;
          attempt =
            (if msg_method request = Some ''initialize'' then Inr WorkerInitialize
             else if msg_method request = Some ''tools/list'' then Inr WorkerToolsList
             else if msg_method request = Some ''tools/call'' then
               (let name = (case msg_params request of None \<Rightarrow> None | Some p \<Rightarrow> param_name p) in
                if or_string name [] = [] then Inl (new_Error ''Tool name is required'')
                else
                  let args = (case msg_params request of None \<Rightarrow> no_args
                              | Some p \<Rightarrow> (case param_arguments p of None \<Rightarrow> no_args | Some a \<Rightarrow> a))
                  in bind_err (executeTool tools (or_string name []) args) (\<lambda>text. Inr (WorkerToolText text)))
             else if msg_method request = Some ''ping'' then Inr WorkerPing
             else Inl (new_Error (''Unknown method: '' @ template_string (msg_method request))))
      in case attempt of
           Inr result \<Rightarrow> WorkerResult mid result
         | Inl error \<Rightarrow> WorkerError mid (- 32603) (err_message error))"

section \<open>The URL shape as the specification words it\<close>

text \<open>
  The path of a URL on the documentation origin: what follows the host, up to the first
  \<open>?\<close> or \<open>#\<close>. \<open>spec_url_shape\<close> is the specification's wording of the accepted shape
  (trusted origin, path ending in \<open>.html\<close>), to be compared with the check the code makes.
\<close>

definition url_path :: "string \<Rightarrow> string option" where
  "url_path url =
     (if starts_with url ''https://docs.aws.amazon.com/''
        then Some (takeWhile (\<lambda>c. c \<noteq> CHR ''?'' \<and> c \<noteq> CHR ''#'') (drop (length ''https://docs.aws.amazon.com'') url))
      else if starts_with url ''http://docs.aws.amazon.com/''
        then Some (takeWhile (\<lambda>c. c \<noteq> CHR ''?'' \<and> c \<noteq> CHR ''#'') (drop (length ''http://docs.aws.amazon.com'') url))
      else None)"

definition spec_url_shape :: "string \<Rightarrow> bool" where
  "spec_url_shape url = (case url_path url of None \<Rightarrow> False | Some path \<Rightarrow> ends_with path ''.html'')"

section \<open>Concrete collaborators for worked examples\<close>


text \<open>A library over trees that are just their markup: nothing matches a selector, nothing
  is removed, and the converter marks its input with the prefix \<open>md:\<close>.\<close>

definition echo_lib :: "string html_lib" where
  "echo_lib =
     \<lparr> lib_parse = (\<lambda>html. Inr html),
       lib_querySelector = (\<lambda>node selector. Inr None),
       lib_removeAll = (\<lambda>node selector. Inr node),
       lib_innerHTML = (\<lambda>node. Inr node),
       lib_turndown = (\<lambda>inner. Inr (''md:'' @ inner)) \<rparr>"

text \<open>A network that answers every request with status 200 and the given header and payload.\<close>

definition serving :: "string option \<Rightarrow> 'd \<Rightarrow> request \<Rightarrow> js_error + 'd response" where
  "serving contentType body req =
     Inr \<lparr> resp_ok = True, resp_status = 200, resp_content_type = contentType, resp_payload = Inr body \<rparr>"

text \<open>A search response of two suggestions, the first without a \<open>textExcerptSuggestion\<close>.\<close>

definition excerpt :: "string \<Rightarrow> text_suggestion" where
  "excerpt title =
     \<lparr> ts_summary = Some ''summary'', ts_suggestionBody = None,
       ts_link = Some ''https://docs.aws.amazon.com/x.html'', ts_title = Some title \<rparr>"

definition gap_response :: search_data where
  "gap_response =
     \<lparr> suggestions = Some [\<lparr> textExcerptSuggestion = None \<rparr>,
                            \<lparr> textExcerptSuggestion = Some (excerpt ''second'') \<rparr>] \<rparr>"

definition full_response :: search_data where
  "full_response =
     \<lparr> suggestions = Some [\<lparr> textExcerptSuggestion = Some (excerpt ''first'') \<rparr>,
                            \<lparr> textExcerptSuggestion = Some (excerpt ''second'') \<rparr>,
                            \<lparr> textExcerptSuggestion = Some (excerpt ''third'') \<rparr>] \<rparr>"

text \<open>An upstream whose three origins answer every request successfully.\<close>

definition example_upstream :: "string upstream" where
  "example_upstream =
     \<lparr> up_lib = echo_lib,
       up_fetch_page = serving None ''<html>x</html>'',
       up_fetch_search = serving None full_response,
       up_fetch_recs = serving None \<lparr> highlyRated_items = None, journey_items = None,
                                       new_items = None, similar_items = None \<rparr> \<rparr>"

text \<open>The message \<open>{id, method: "tools/call", params: {name, arguments}}\<close>.\<close>

definition tools_call :: "msg_id option \<Rightarrow> string option \<Rightarrow> tool_args option \<Rightarrow> MCPMessage" where
  "tools_call i name args =
     \<lparr> msg_id = i, msg_method = Some ''tools/call'',
       msg_params = Some \<lparr> param_name = name, param_arguments = args \<rparr> \<rparr>"

definition example_worker_tools :: worker_tools where
  "example_worker_tools =
     \<lparr> wt_readDocumentation = (\<lambda>url max_length start_index. ''page''),
       wt_searchDocumentation = (\<lambda>search_phrase limit. ''search guidance''),
       wt_recommend = (\<lambda>url. ''recommendations'') \<rparr>"



section \<open>String predicates\<close>

lemma starts_with_iff: "starts_with s p \<longleftrightarrow> (\<exists>rest. s = p @ rest)"
proof
  assume "starts_with s p"
  then have "s = p @ drop (length p) s"
    unfolding starts_with_def by (metis append_take_drop_id)
  then show "\<exists>rest. s = p @ rest" ..
next
  assume "\<exists>rest. s = p @ rest"
  then show "starts_with s p" by (auto simp: starts_with_def)
qed

lemma ends_with_iff: "ends_with s suffix \<longleftrightarrow> (\<exists>stem. s = stem @ suffix)"
proof
  assume a: "ends_with s suffix"
  then have "s = take (length s - length suffix) s @ suffix"
    unfolding ends_with_def by (metis append_take_drop_id)
  then show "\<exists>stem. s = stem @ suffix" ..
next
  assume "\<exists>stem. s = stem @ suffix"
  then show "ends_with s suffix" by (auto simp: ends_with_def)
qed

lemma js_includes_iff: "js_includes s needle \<longleftrightarrow> (\<exists>before after. s = before @ needle @ after)"
proof (induction s)
  case Nil
  then show ?case by auto
next
  case (Cons c cs)
  show ?case
  proof
    assume "js_includes (c # cs) needle"
    then consider "starts_with (c # cs) needle" | "js_includes cs needle" by auto
    then show "\<exists>before after. c # cs = before @ needle @ after"
    proof cases
      case 1
      then obtain rest where "c # cs = needle @ rest" using starts_with_iff by blast
      then have "c # cs = [] @ needle @ rest" by simp
      then show ?thesis by blast
    next
      case 2
      then obtain before after where "cs = before @ needle @ after" using Cons.IH by blast
      then have "c # cs = (c # before) @ needle @ after" by simp
      then show ?thesis by blast
    qed
  next
    assume "\<exists>before after. c # cs = before @ needle @ after"
    then obtain before after where eq: "c # cs = before @ needle @ after" by blast
    show "js_includes (c # cs) needle"
    proof (cases before)
      case Nil
      then have "starts_with (c # cs) needle" using eq starts_with_iff[of "c # cs" needle] by auto
      then show ?thesis by simp
    next
      case (Cons b bs)
      then have "cs = bs @ needle @ after" using eq by simp
      then have "js_includes cs needle" using Cons.IH by blast
      then show ?thesis by simp
    qed
  qed
qed

section \<open>Properties of the pagination formatter\<close>

lemma digit_char_is_digit: "is_digit (digit_char d)"
proof -
  have "d mod 10 < 10" by simp
  then have "d mod 10 \<in> {0,1,2,3,4,5,6,7,8,9}" by (simp only: insert_iff empty_iff) arith
  then show ?thesis
    unfolding digit_char_def is_digit_def by auto
qed

lemma nat_to_string_digits: "list_all is_digit (nat_to_string n) \<and> nat_to_string n \<noteq> []"
proof (induction n rule: nat_to_string.induct)
  case (1 n)
  show ?case
  proof (cases "n < 10")
    case True
    then show ?thesis by (simp add: nat_to_string.simps[of n] digit_char_is_digit)
  next
    case False
    then show ?thesis using "1.IH" by (simp add: nat_to_string.simps[of n] digit_char_is_digit)
  qed
qed

lemma digit_value_digit_char: "digit_value (digit_char d) = d mod 10"
proof -
  have "d mod 10 < 10" by simp
  then have "d mod 10 \<in> {0,1,2,3,4,5,6,7,8,9}" by (simp only: insert_iff empty_iff) arith
  then show ?thesis
    unfolding digit_char_def digit_value_def by auto
qed

lemma string_to_nat_snoc: "string_to_nat (s @ [c]) = 10 * string_to_nat s + digit_value c"
  by (simp add: string_to_nat_def)

lemma string_to_nat_nat_to_string: "string_to_nat (nat_to_string n) = n"
proof (induction n rule: nat_to_string.induct)
  case (1 n)
  show ?case
  proof (cases "n < 10")
    case True
    then show ?thesis
      by (simp add: nat_to_string.simps[of n] string_to_nat_def digit_value_digit_char)
  next
    case False
    then show ?thesis
      using "1.IH" by (simp add: nat_to_string.simps[of n] string_to_nat_snoc digit_value_digit_char)
  qed
qed

lemma substring_window:
  assumes "0 \<le> a" and "a \<le> b"
  shows "substring s a b = take (nat (b - a)) (drop (nat a) s)"
  using assms
  by (auto simp: substring_def Let_def min_def max_def)

text \<open>
  Claim C2. Whenever the start index is at or past the end of the text (the empty text
  included), the formatter returns the fixed "no more content" message behind the source
  label, whatever the maximum length.
\<close>

theorem no_more_content_past_end:
  assumes "int (length fullText) \<le> startIndex"
  shows "formatDocumentationResult sourceLabel fullText startIndex maxLength
           = ''AWS Documentation from '' @ sourceLabel @ '':'' @ [CHR 0x0A, CHR 0x0A]
               @ ''<e>No more content available.</e>''"
  using assms
  by (simp add: formatDocumentationResult_def no_more_content_def newline_def)

theorem no_more_content_past_end_witness:
  "int (length '''') \<le> 0
   \<and> formatDocumentationResult ''https://docs.aws.amazon.com/a.html'' '''' 0 5000
       = ''AWS Documentation from https://docs.aws.amazon.com/a.html:'' @ [CHR 0x0A, CHR 0x0A]
           @ ''<e>No more content available.</e>''
   \<and> int (length ''abc'') \<le> 3
   \<and> formatDocumentationResult ''u'' ''abc'' 3 1 = formatDocumentationResult ''u'' ''abc'' 3 50000"
proof -
  have h1: "int (length '''') \<le> 0" by simp
  have h2: "int (length ''abc'') \<le> 3" by simp
  show ?thesis
    using no_more_content_past_end[OF h1, of "''https://docs.aws.amazon.com/a.html''" 5000]
      no_more_content_past_end[OF h2, of "''u''" 1]
      no_more_content_past_end[OF h2, of "''u''" 50000]
    by simp
qed

text \<open>
  Claim C3. For a start index \<open>\<ge> 0\<close> and a maximum length \<open>\<ge> 1\<close>, let the slice be the
  characters at positions \<open>[startIndex, min (startIndex + maxLength) (length fullText))\<close>,
  and let it be non-empty. If content remains after it, the output is the source-label
  prefix, the slice, and the continuation instruction naming \<open>startIndex + length slice\<close>
  (a decimal numeral that reads back as exactly that number). If nothing remains, the output
  is the prefix and the slice only.
\<close>

theorem continuation_names_next_start:
  assumes "0 \<le> startIndex" and "1 \<le> maxLength"
    and "slice = take (nat (min (startIndex + maxLength) (int (length fullText)) - startIndex))
                   (drop (nat startIndex) fullText)"
    and "slice \<noteq> []"
  shows "(startIndex + int (length slice) < int (length fullText) \<longrightarrow>
            formatDocumentationResult sourceLabel fullText startIndex maxLength
              = ''AWS Documentation from '' @ sourceLabel @ '':'' @ [CHR 0x0A, CHR 0x0A] @ slice
                  @ [CHR 0x0A, CHR 0x0A]
                  @ ''<e>Content truncated. Call the read_documentation tool with start_index=''
                  @ number_to_string (startIndex + int (length slice))
                  @ '' to get more content.</e>''
            \<and> int (string_to_nat (number_to_string (startIndex + int (length slice))))
                  = startIndex + int (length slice))
       \<and> (\<not> startIndex + int (length slice) < int (length fullText) \<longrightarrow>
            formatDocumentationResult sourceLabel fullText startIndex maxLength
              = ''AWS Documentation from '' @ sourceLabel @ '':'' @ [CHR 0x0A, CHR 0x0A] @ slice)"
proof -
  have lt: "startIndex < int (length fullText)"
    using assms by (auto simp: min_def split: if_splits)
  have sub: "substring fullText startIndex (min (startIndex + maxLength) (int (length fullText))) = slice"
    using assms(1,2) lt unfolding assms(3) by (simp add: substring_window min_def)
  have num: "int (string_to_nat (number_to_string (startIndex + int (length slice))))
                  = startIndex + int (length slice)"
    using assms(1) by (simp add: number_to_string_def string_to_nat_nat_to_string)
  show ?thesis
    using lt assms(4) num
    by (simp add: formatDocumentationResult_def Let_def sub source_prefix_def continuation_note_def newline_def)
qed

lemma number_to_string_5: "number_to_string 5 = ''5''"
  by (simp add: number_to_string_def nat_to_string.simps[of 5] digit_char_def)

theorem continuation_names_next_start_witness:
  "(0::int) \<le> 0 \<and> (1::int) \<le> 5
   \<and> ''abcde'' = take (nat (min (0 + 5) (int (length ''abcdefghijklmnopqrst'')) - 0))
                    (drop (nat 0) ''abcdefghijklmnopqrst'')
   \<and> ''abcde'' \<noteq> []
   \<and> formatDocumentationResult ''u'' ''abcdefghijklmnopqrst'' 0 5
       = ''AWS Documentation from u:'' @ [CHR 0x0A, CHR 0x0A] @ ''abcde'' @ [CHR 0x0A, CHR 0x0A]
           @ ''<e>Content truncated. Call the read_documentation tool with start_index=5 to get more content.</e>''"
proof -
  have h1: "(0::int) \<le> 0" and h2: "(1::int) \<le> 5" by simp_all
  have h3: "''abcde'' = take (nat (min (0 + 5) (int (length ''abcdefghijklmnopqrst'')) - 0))
                    (drop (nat 0) ''abcdefghijklmnopqrst'')" by simp
  have h4: "''abcde'' \<noteq> []" by simp
  show ?thesis
    using continuation_names_next_start[OF h1 h2 h3 h4, of "''u''"]
    by (simp add: number_to_string_5)
qed

text \<open>Reading the instruction back out of a returned text.\<close>

lemma read_instruction_wrap:
  "read_instruction (instruction_head @ digits @ instruction_tail)
     = (if digits \<noteq> [] \<and> list_all is_digit digits then Some (string_to_nat digits) else None)"
proof -
  have sw: "starts_with (instruction_head @ digits @ instruction_tail) instruction_head"
    by (simp add: starts_with_def)
  have ew: "ends_with (instruction_head @ digits @ instruction_tail) instruction_tail"
    by (simp add: ends_with_def)
  show ?thesis
    unfolding read_instruction_def Let_def
    using sw ew by simp
qed

lemma continuation_note_wrap:
  "continuation_note nextStart = instruction_head @ number_to_string nextStart @ instruction_tail"
  by (simp add: continuation_note_def instruction_head_def instruction_tail_def newline_def)

lemma read_instruction_note:
  "read_instruction (continuation_note nextStart) = (if 0 \<le> nextStart then Some (nat nextStart) else None)"
proof (cases "0 \<le> nextStart")
  case True
  then show ?thesis
    using nat_to_string_digits[of "nat nextStart"]
    by (simp add: continuation_note_wrap read_instruction_wrap number_to_string_def string_to_nat_nat_to_string)
next
  case False
  then have "\<not> list_all is_digit (number_to_string nextStart)"
    by (simp add: number_to_string_def is_digit_def)
  then show ?thesis using False
    by (simp add: continuation_note_wrap read_instruction_wrap)
qed

lemma read_instruction_nothing: "read_instruction [] = None"
  by (simp add: read_instruction_def starts_with_def instruction_head_def)

lemma read_instruction_no_more: "read_instruction ''<e>No more content available.</e>'' = None"
  by (simp add: read_instruction_def starts_with_def instruction_head_def)

text \<open>The three shapes of a returned text.\<close>

lemma appended_text_after:
  "appended_text url slice (source_prefix url @ slice @ rest) = rest"
proof -
  define p where "p = ''AWS Documentation from '' @ url @ '':'' @ [CHR 0x0A, CHR 0x0A] @ slice"
  have eq: "source_prefix url @ slice @ rest = p @ rest"
    by (simp add: p_def source_prefix_def newline_def)
  have "appended_text url slice (p @ rest) = drop (length p) (p @ rest)"
    by (simp only: appended_text_def p_def)
  also have "\<dots> = rest" by simp
  finally show ?thesis by (simp only: eq)
qed

lemma format_step:
  fixes url content startIndex maxLength
  defines "returned \<equiv> formatDocumentationResult url content startIndex maxLength"
    and "slice \<equiv> returned_slice content startIndex maxLength"
  shows "(slice = [] \<and> returned = source_prefix url @ slice @ ''<e>No more content available.</e>'')
       \<or> (slice \<noteq> [] \<and> startIndex < int (length content)
            \<and> \<not> startIndex + int (length slice) < int (length content)
            \<and> returned = source_prefix url @ slice @ [])
       \<or> (slice \<noteq> [] \<and> startIndex < int (length content)
            \<and> startIndex + int (length slice) < int (length content)
            \<and> returned = source_prefix url @ slice @ continuation_note (startIndex + int (length slice)))"
  unfolding returned_def slice_def
  by (simp add: formatDocumentationResult_def returned_slice_def Let_def
        no_more_content_def source_prefix_def)

lemma read_step:
  "read_instruction (appended_text url (returned_slice content startIndex maxLength)
                       (formatDocumentationResult url content startIndex maxLength))
     = (if returned_slice content startIndex maxLength \<noteq> []
           \<and> startIndex + int (length (returned_slice content startIndex maxLength)) < int (length content)
           \<and> 0 \<le> startIndex + int (length (returned_slice content startIndex maxLength))
        then Some (nat (startIndex + int (length (returned_slice content startIndex maxLength))))
        else None)"
  using format_step[of content startIndex maxLength url]
  by (elim disjE conjE)
     (simp_all only: appended_text_after read_instruction_no_more read_instruction_nothing
        read_instruction_note list.size if_True if_False simp_thms split: if_splits)

termination read_all
proof (relation "measure (\<lambda>(url, content, maxLength, startIndex). nat (int (length content) - startIndex))")
  show "wf (measure (\<lambda>(url, content, maxLength, startIndex). nat (int (length content) - startIndex)))"
    by simp
next
  fix url content maxLength startIndex returned slice nextStart
  assume "returned = formatDocumentationResult url content startIndex maxLength"
    and "slice = returned_slice content startIndex maxLength"
    and "read_instruction (appended_text url slice returned) = Some nextStart"
  then have "slice \<noteq> [] \<and> startIndex + int (length slice) < int (length content)
               \<and> int nextStart = startIndex + int (length slice)"
    using read_step[of url content startIndex maxLength]
    by (auto split: if_splits)
  then show "((url, content, maxLength, int nextStart), (url, content, maxLength, startIndex))
          \<in> measure (\<lambda>(url, content, maxLength, startIndex). nat (int (length content) - startIndex))"
    by auto
qed

declare read_all.simps [simp del]

lemma returned_slice_window:
  assumes "0 \<le> startIndex" and "1 \<le> maxLength"
  shows "returned_slice content startIndex maxLength = take (nat maxLength) (drop (nat startIndex) content)"
proof (cases "int (length content) \<le> startIndex")
  case True
  then show ?thesis using assms by (simp add: returned_slice_def)
next
  case False
  then show ?thesis using assms
    by (auto simp: returned_slice_def Let_def substring_window min_def)
qed

lemma read_all_unfold:
  assumes "0 \<le> startIndex" and "1 \<le> maxLength"
  shows "read_all url content maxLength startIndex =
           (if take (nat maxLength) (drop (nat startIndex) content) \<noteq> []
               \<and> startIndex + int (length (take (nat maxLength) (drop (nat startIndex) content)))
                    < int (length content)
            then (startIndex, formatDocumentationResult url content startIndex maxLength,
                    take (nat maxLength) (drop (nat startIndex) content))
                   # read_all url content maxLength
                       (startIndex + int (length (take (nat maxLength) (drop (nat startIndex) content))))
            else [(startIndex, formatDocumentationResult url content startIndex maxLength,
                    take (nat maxLength) (drop (nat startIndex) content))])"
proof -
  let ?slice = "take (nat maxLength) (drop (nat startIndex) content)"
  have rs: "returned_slice content startIndex maxLength = ?slice"
    by (rule returned_slice_window[OF assms(1,2)])
  define more where
    "more \<longleftrightarrow> ?slice \<noteq> [] \<and> startIndex + int (length ?slice) < int (length content)"
  have nonneg: "0 \<le> startIndex + int (length ?slice)" using assms(1) by simp
  have step: "read_instruction (appended_text url ?slice (formatDocumentationResult url content startIndex maxLength))
                = (if more then Some (nat (startIndex + int (length ?slice))) else None)"
    using read_step[of url content startIndex maxLength] nonneg unfolding rs more_def by simp
  have idx: "int (nat (startIndex + int (length ?slice))) = startIndex + int (length ?slice)"
    using nonneg by simp
  have eq: "read_all url content maxLength startIndex =
          (case (if more then Some (nat (startIndex + int (length ?slice))) else None) of
             None \<Rightarrow> [(startIndex, formatDocumentationResult url content startIndex maxLength, ?slice)]
           | Some nextStart \<Rightarrow>
               (startIndex, formatDocumentationResult url content startIndex maxLength, ?slice)
                 # read_all url content maxLength (int nextStart))"
    by (subst read_all.simps) (simp only: Let_def rs step)
  have "read_all url content maxLength startIndex =
          (if more
           then (startIndex, formatDocumentationResult url content startIndex maxLength, ?slice)
                  # read_all url content maxLength (startIndex + int (length ?slice))
           else [(startIndex, formatDocumentationResult url content startIndex maxLength, ?slice)])"
    by (cases more) (simp_all only: eq if_True if_False option.case idx)
  then show ?thesis unfolding more_def .
qed

lemma more_means_full:
  assumes "0 \<le> startIndex" and "1 \<le> maxLength"
    and "startIndex + int (length (take (nat maxLength) (drop (nat startIndex) content))) < int (length content)"
  shows "length (take (nat maxLength) (drop (nat startIndex) content)) = nat maxLength"
  using assms by (auto simp: min_def split: if_splits)

lemma read_all_concat:
  assumes "1 \<le> maxLength"
  shows "0 \<le> startIndex \<Longrightarrow>
         reassemble (read_all url content maxLength startIndex) = drop (nat startIndex) content"
proof (induction "nat (int (length content) - startIndex)" arbitrary: startIndex rule: less_induct)
  case less
  let ?slice = "take (nat maxLength) (drop (nat startIndex) content)"
  let ?next = "startIndex + int (length ?slice)"
  note unfold = read_all_unfold[OF less.prems assms, of url content]
  show ?case
  proof (cases "?slice \<noteq> [] \<and> ?next < int (length content)")
    case True
    then have smaller: "nat (int (length content) - ?next) < nat (int (length content) - startIndex)"
      by auto
    have nonneg: "0 \<le> ?next" using less.prems by simp
    have ih: "reassemble (read_all url content maxLength ?next) = drop (nat ?next) content"
      by (rule less.hyps[OF smaller nonneg])
    have len: "length ?slice = nat maxLength"
      using True more_means_full[OF less.prems assms] by blast
    have "nat ?next = nat startIndex + nat maxLength"
      using len less.prems assms by (simp add: nat_add_distrib)
    then have d: "drop (nat ?next) content = drop (nat maxLength) (drop (nat startIndex) content)"
      by (simp add: add.commute)
    have "?slice @ drop (nat maxLength) (drop (nat startIndex) content) = drop (nat startIndex) content"
      by (rule append_take_drop_id)
    then have glue: "?slice @ drop (nat ?next) content = drop (nat startIndex) content"
      by (simp only: d)
    have "reassemble (read_all url content maxLength startIndex)
            = ?slice @ reassemble (read_all url content maxLength ?next)"
      using True by (simp add: unfold)
    then show ?thesis by (simp only: ih glue)
  next
    case False
    then have run: "read_all url content maxLength startIndex
                      = [(startIndex, formatDocumentationResult url content startIndex maxLength, ?slice)]"
      by (simp only: unfold if_False)
    have "?slice = drop (nat startIndex) content"
      using False less.prems assms by (auto simp: min_def split: if_splits)
    then show ?thesis by (simp add: run)
  qed
qed

lemma read_all_entries:
  assumes "1 \<le> maxLength"
  shows "0 \<le> startIndex \<Longrightarrow> (s, returned, slice) \<in> set (read_all url content maxLength startIndex) \<Longrightarrow>
         0 \<le> s \<and> returned = formatDocumentationResult url content s maxLength
           \<and> slice = take (nat maxLength) (drop (nat s) content)"
proof (induction "nat (int (length content) - startIndex)" arbitrary: startIndex rule: less_induct)
  case less
  let ?slice = "take (nat maxLength) (drop (nat startIndex) content)"
  let ?next = "startIndex + int (length ?slice)"
  note unfold = read_all_unfold[OF less.prems(1) assms, of url content]
  show ?case
  proof (cases "?slice \<noteq> [] \<and> ?next < int (length content)")
    case True
    then have smaller: "nat (int (length content) - ?next) < nat (int (length content) - startIndex)"
      by auto
    have nonneg: "0 \<le> ?next" using less.prems by simp
    from less.prems(2) True
    consider "(s, returned, slice) = (startIndex, formatDocumentationResult url content startIndex maxLength, ?slice)"
      | "(s, returned, slice) \<in> set (read_all url content maxLength ?next)"
      by (auto simp: unfold)
    then show ?thesis
    proof cases
      case 1
      then show ?thesis using less.prems(1) by simp
    next
      case 2
      then show ?thesis by (rule less.hyps[OF smaller nonneg])
    qed
  next
    case False
    then have "read_all url content maxLength startIndex
                 = [(startIndex, formatDocumentationResult url content startIndex maxLength, ?slice)]"
      by (simp only: unfold if_False)
    then show ?thesis using less.prems by simp
  qed
qed

lemma read_all_starts:
  assumes "1 \<le> maxLength"
  shows "0 \<le> startIndex \<Longrightarrow> k < length (read_all url content maxLength startIndex) \<Longrightarrow>
         fst (read_all url content maxLength startIndex ! k)
           = startIndex + int (length (reassemble (take k (read_all url content maxLength startIndex))))"
proof (induction "nat (int (length content) - startIndex)" arbitrary: startIndex k rule: less_induct)
  case less
  let ?slice = "take (nat maxLength) (drop (nat startIndex) content)"
  let ?next = "startIndex + int (length ?slice)"
  let ?entry = "(startIndex, formatDocumentationResult url content startIndex maxLength, ?slice)"
  note unfold = read_all_unfold[OF less.prems(1) assms, of url content]
  show ?case
  proof (cases "?slice \<noteq> [] \<and> ?next < int (length content)")
    case True
    then have smaller: "nat (int (length content) - ?next) < nat (int (length content) - startIndex)"
      by auto
    have nonneg: "0 \<le> ?next" using less.prems by simp
    have run: "read_all url content maxLength startIndex = ?entry # read_all url content maxLength ?next"
      using True by (simp add: unfold)
    show ?thesis
    proof (cases k)
      case 0
      then show ?thesis by (simp add: run)
    next
      case (Suc j)
      then have "j < length (read_all url content maxLength ?next)"
        using less.prems(2) by (simp add: run)
      then have "fst (read_all url content maxLength ?next ! j)
           = ?next + int (length (reassemble (take j (read_all url content maxLength ?next))))"
        by (rule less.hyps[OF smaller nonneg])
      then show ?thesis using Suc by (simp add: run)
    qed
  next
    case False
    then have "read_all url content maxLength startIndex = [?entry]"
      by (simp only: unfold if_False)
    then show ?thesis using less.prems by simp
  qed
qed

lemma read_all_names_next:
  assumes "1 \<le> maxLength"
  shows "0 \<le> startIndex \<Longrightarrow> Suc k < length (read_all url content maxLength startIndex) \<Longrightarrow>
         fst (snd (read_all url content maxLength startIndex ! k))
           = source_prefix url @ snd (snd (read_all url content maxLength startIndex ! k))
               @ continuation_note (fst (read_all url content maxLength startIndex ! Suc k))
         \<and> 0 \<le> fst (read_all url content maxLength startIndex ! Suc k)"
proof (induction "nat (int (length content) - startIndex)" arbitrary: startIndex k rule: less_induct)
  case less
  let ?slice = "take (nat maxLength) (drop (nat startIndex) content)"
  let ?next = "startIndex + int (length ?slice)"
  let ?entry = "(startIndex, formatDocumentationResult url content startIndex maxLength, ?slice)"
  note unfold = read_all_unfold[OF less.prems(1) assms, of url content]
  show ?case
  proof (cases "?slice \<noteq> [] \<and> ?next < int (length content)")
    case True
    then have smaller: "nat (int (length content) - ?next) < nat (int (length content) - startIndex)"
      by auto
    have nonneg: "0 \<le> ?next" using less.prems by simp
    have run: "read_all url content maxLength startIndex = ?entry # read_all url content maxLength ?next"
      using True by (simp add: unfold)
    show ?thesis
    proof (cases k)
      case 0
      have first: "fst (read_all url content maxLength ?next ! 0) = ?next"
        by (subst read_all_unfold[OF nonneg assms]) simp
      have rs: "returned_slice content startIndex maxLength = ?slice"
        by (rule returned_slice_window[OF less.prems(1) assms])
      have "formatDocumentationResult url content startIndex maxLength
              = source_prefix url @ ?slice @ continuation_note ?next"
        using format_step[of content startIndex maxLength url] True
        unfolding rs by auto
      then show ?thesis using 0 first nonneg by (simp add: run)
    next
      case (Suc j)
      then have "Suc j < length (read_all url content maxLength ?next)"
        using less.prems(2) by (simp add: run)
      then have "fst (snd (read_all url content maxLength ?next ! j))
           = source_prefix url @ snd (snd (read_all url content maxLength ?next ! j))
               @ continuation_note (fst (read_all url content maxLength ?next ! Suc j))
         \<and> 0 \<le> fst (read_all url content maxLength ?next ! Suc j)"
        by (rule less.hyps[OF smaller nonneg])
      then show ?thesis using Suc by (simp add: run)
    qed
  next
    case False
    then have "read_all url content maxLength startIndex = [?entry]"
      by (simp only: unfold if_False)
    then show ?thesis using less.prems by simp
  qed
qed

lemma read_all_last:
  assumes "1 \<le> maxLength"
  shows "0 \<le> startIndex \<Longrightarrow> Suc k = length (read_all url content maxLength startIndex) \<Longrightarrow>
         fst (snd (read_all url content maxLength startIndex ! k))
           = source_prefix url
               @ (if snd (snd (read_all url content maxLength startIndex ! k)) = []
                  then ''<e>No more content available.</e>''
                  else snd (snd (read_all url content maxLength startIndex ! k)))"
proof (induction "nat (int (length content) - startIndex)" arbitrary: startIndex k rule: less_induct)
  case less
  let ?slice = "take (nat maxLength) (drop (nat startIndex) content)"
  let ?next = "startIndex + int (length ?slice)"
  let ?entry = "(startIndex, formatDocumentationResult url content startIndex maxLength, ?slice)"
  note unfold = read_all_unfold[OF less.prems(1) assms, of url content]
  show ?case
  proof (cases "?slice \<noteq> [] \<and> ?next < int (length content)")
    case True
    then have smaller: "nat (int (length content) - ?next) < nat (int (length content) - startIndex)"
      by auto
    have nonneg: "0 \<le> ?next" using less.prems by simp
    have run: "read_all url content maxLength startIndex = ?entry # read_all url content maxLength ?next"
      using True by (simp add: unfold)
    have nonempty: "read_all url content maxLength ?next \<noteq> []"
      by (subst read_all_unfold[OF nonneg assms]) simp
    show ?thesis
    proof (cases k)
      case 0
      then show ?thesis using less.prems(2) nonempty by (simp add: run)
    next
      case (Suc j)
      then have "Suc j = length (read_all url content maxLength ?next)"
        using less.prems(2) by (simp add: run)
      then have "fst (snd (read_all url content maxLength ?next ! j))
           = source_prefix url
               @ (if snd (snd (read_all url content maxLength ?next ! j)) = []
                  then ''<e>No more content available.</e>''
                  else snd (snd (read_all url content maxLength ?next ! j)))"
        by (rule less.hyps[OF smaller nonneg])
      then show ?thesis using Suc by (simp add: run)
    qed
  next
    case False
    then have run: "read_all url content maxLength startIndex = [?entry]"
      by (simp only: unfold if_False)
    have rs: "returned_slice content startIndex maxLength = ?slice"
      by (rule returned_slice_window[OF less.prems(1) assms])
    have "formatDocumentationResult url content startIndex maxLength
            = source_prefix url @ (if ?slice = [] then ''<e>No more content available.</e>'' else ?slice)"
      using format_step[of content startIndex maxLength url] False
      unfolding rs by auto
    then show ?thesis using less.prems(2) by (simp add: run)
  qed
qed


text \<open>
  Claim C4. For every text and every maximum length \<open>\<ge> 1\<close>, calling the formatter at
  index 0 and then at each index read out of the continuation instruction of the returned
  text visits pages whose slices concatenate to the whole text. Every page is the
  formatter's output at its index and carries the characters from that index on; every page
  starts exactly where the slices before it end (no gap, no overlap); every page but the
  last ends with the instruction that names, in decimal, the index of the page read next;
  and the last page carries no instruction.
\<close>

theorem pagination_coverage:
  assumes "1 \<le> maxLength"
  shows "reassemble (read_all url content maxLength 0) = content
       \<and> (\<forall>(s, returned, slice) \<in> set (read_all url content maxLength 0).
             returned = formatDocumentationResult url content s maxLength
             \<and> slice = take (nat maxLength) (drop (nat s) content))
       \<and> (\<forall>k < length (read_all url content maxLength 0).
             fst (read_all url content maxLength 0 ! k)
               = int (length (reassemble (take k (read_all url content maxLength 0)))))
       \<and> (\<forall>k. Suc k < length (read_all url content maxLength 0) \<longrightarrow>
             (\<exists>digits. digits \<noteq> [] \<and> (\<forall>c \<in> set digits. c \<in> set ''0123456789'')
                \<and> int (string_to_nat digits) = fst (read_all url content maxLength 0 ! Suc k)
                \<and> fst (snd (read_all url content maxLength 0 ! k))
                    = ''AWS Documentation from '' @ url @ '':'' @ [CHR 0x0A, CHR 0x0A]
                        @ snd (snd (read_all url content maxLength 0 ! k)) @ [CHR 0x0A, CHR 0x0A]
                        @ ''<e>Content truncated. Call the read_documentation tool with start_index=''
                        @ digits @ '' to get more content.</e>''))
       \<and> (\<forall>k. Suc k = length (read_all url content maxLength 0) \<longrightarrow>
             fst (snd (read_all url content maxLength 0 ! k))
               = ''AWS Documentation from '' @ url @ '':'' @ [CHR 0x0A, CHR 0x0A]
                   @ (if snd (snd (read_all url content maxLength 0 ! k)) = []
                      then ''<e>No more content available.</e>''
                      else snd (snd (read_all url content maxLength 0 ! k))))"
proof -
  let ?run = "read_all url content maxLength 0"
  have c1: "reassemble ?run = content"
    using read_all_concat[OF assms, of 0 url content] by simp
  have c2: "\<forall>(s, returned, slice) \<in> set ?run.
             returned = formatDocumentationResult url content s maxLength
             \<and> slice = take (nat maxLength) (drop (nat s) content)"
    using read_all_entries[OF assms, of 0 _ _ _ url content] by auto
  have c3: "\<forall>k < length ?run. fst (?run ! k) = int (length (reassemble (take k ?run)))"
    using read_all_starts[OF assms, of 0 _ url content] by simp
  have c4: "\<forall>k. Suc k < length ?run \<longrightarrow>
             (\<exists>digits. digits \<noteq> [] \<and> (\<forall>c \<in> set digits. c \<in> set ''0123456789'')
                \<and> int (string_to_nat digits) = fst (?run ! Suc k)
                \<and> fst (snd (?run ! k))
                    = ''AWS Documentation from '' @ url @ '':'' @ [CHR 0x0A, CHR 0x0A]
                        @ snd (snd (?run ! k)) @ [CHR 0x0A, CHR 0x0A]
                        @ ''<e>Content truncated. Call the read_documentation tool with start_index=''
                        @ digits @ '' to get more content.</e>'')"
  proof (intro allI impI)
    fix k
    assume more: "Suc k < length ?run"
    let ?next = "fst (?run ! Suc k)"
    have named: "fst (snd (?run ! k)) = source_prefix url @ snd (snd (?run ! k)) @ continuation_note ?next"
      and nonneg: "0 \<le> ?next"
      using read_all_names_next[OF assms, of 0 k url content] more by simp_all
    let ?digits = "nat_to_string (nat ?next)"
    have d1: "?digits \<noteq> []" and d2: "\<forall>c \<in> set ?digits. c \<in> set ''0123456789''"
      using nat_to_string_digits[of "nat ?next"] by (simp_all add: list_all_iff is_digit_def)
    have d3: "int (string_to_nat ?digits) = ?next"
      using nonneg by (simp add: string_to_nat_nat_to_string)
    have d4: "fst (snd (?run ! k))
                = ''AWS Documentation from '' @ url @ '':'' @ [CHR 0x0A, CHR 0x0A]
                    @ snd (snd (?run ! k)) @ [CHR 0x0A, CHR 0x0A]
                    @ ''<e>Content truncated. Call the read_documentation tool with start_index=''
                    @ ?digits @ '' to get more content.</e>''"
      using nonneg
      by (simp add: named source_prefix_def continuation_note_def number_to_string_def newline_def)
    show "\<exists>digits. digits \<noteq> [] \<and> (\<forall>c \<in> set digits. c \<in> set ''0123456789'')
                \<and> int (string_to_nat digits) = ?next
                \<and> fst (snd (?run ! k))
                    = ''AWS Documentation from '' @ url @ '':'' @ [CHR 0x0A, CHR 0x0A]
                        @ snd (snd (?run ! k)) @ [CHR 0x0A, CHR 0x0A]
                        @ ''<e>Content truncated. Call the read_documentation tool with start_index=''
                        @ digits @ '' to get more content.</e>''"
      using d1 d2 d3 d4 by (intro exI[of _ ?digits] conjI)
  qed
  have c5: "\<forall>k. Suc k = length ?run \<longrightarrow>
             fst (snd (?run ! k))
               = ''AWS Documentation from '' @ url @ '':'' @ [CHR 0x0A, CHR 0x0A]
                   @ (if snd (snd (?run ! k)) = [] then ''<e>No more content available.</e>''
                      else snd (snd (?run ! k)))"
    using read_all_last[OF assms, of 0 _ url content]
    by (simp add: source_prefix_def newline_def)
  show ?thesis by (intro conjI c1 c2 c3 c4 c5)
qed

lemma read_all_example:
  "map (\<lambda>(s, returned, slice). (s, slice)) (read_all ''u'' ''0123456789'' 3 0)
     = [(0, ''012''), (3, ''345''), (6, ''678''), (9, ''9'')]"
  by code_simp

lemma read_all_example_text:
  "fst (snd (read_all ''u'' ''0123456789'' 3 0 ! 0))
     = ''AWS Documentation from u:'' @ [CHR 0x0A, CHR 0x0A] @ ''012'' @ [CHR 0x0A, CHR 0x0A]
         @ ''<e>Content truncated. Call the read_documentation tool with start_index=3 to get more content.</e>''"
  by code_simp

theorem pagination_coverage_witness:
  "(1::int) \<le> 3 \<and> reassemble (read_all ''u'' ''0123456789'' 3 0) = ''0123456789''
     \<and> map (\<lambda>(s, returned, slice). (s, slice)) (read_all ''u'' ''0123456789'' 3 0)
         = [(0, ''012''), (3, ''345''), (6, ''678''), (9, ''9'')]"
proof -
  have h: "(1::int) \<le> 3" by simp
  have "reassemble (read_all ''u'' ''0123456789'' 3 0) = ''0123456789''"
    using pagination_coverage[OF h, of "''u''" "''0123456789''"] by (rule conjunct1)
  then show ?thesis using h read_all_example by simp
qed


section \<open>Properties of the content extractor\<close>













section \<open>Properties of the page fetch\<close>

lemma substring_prefix: "substring s 0 100 = take 100 s"
  by (simp add: substring_def Let_def min_def max_def)

lemma isHtmlContent_iff:
  "isHtmlContent pageRaw contentType \<longleftrightarrow>
     (\<exists>before after. take 100 pageRaw = before @ ''<html'' @ after)
     \<or> (\<exists>before after. contentType = before @ ''text/html'' @ after)
     \<or> contentType = []"
  unfolding isHtmlContent_def substring_prefix js_includes_iff ..

lemma readDocumentation_ok:
  assumes "matches_docs_origin u" and "ends_with u ''.html''"
    and "fetch (page_request u sessionId) = Inr response"
    and "resp_ok response" and "resp_payload response = Inr pageRaw"
  shows "readDocumentation lib fetch (Some u) maxLength startIndex sessionId
           = (Inr (formatDocumentationResult u (page_content lib pageRaw (resp_content_type response))
                     startIndex maxLength),
              [page_request u sessionId])"
  using assms by (simp add: readDocumentation_def Let_def bind_err_def)

text \<open>
  Claim C10. When the page request is accepted and answered successfully, the body goes
  through the extractor exactly when its first 100 characters contain \<open><html\<close>, or the
  content type contains \<open>text/html\<close>, or the content type is empty (an absent header
  counts as empty); otherwise the body itself is what the formatter paginates.
\<close>

theorem html_routing:
  assumes "(\<exists>rest. u = ''http://docs.aws.amazon.com/'' @ rest) \<or> (\<exists>rest. u = ''https://docs.aws.amazon.com/'' @ rest)"
    and "\<exists>stem. u = stem @ ''.html''"
    and "fetch (page_request u sessionId) = Inr response"
    and "resp_ok response" and "resp_payload response = Inr pageRaw"
    and "contentType = (case resp_content_type response of None \<Rightarrow> [] | Some header \<Rightarrow> header)"
    and "routed \<longleftrightarrow> (\<exists>before after. take 100 pageRaw = before @ ''<html'' @ after)
                       \<or> (\<exists>before after. contentType = before @ ''text/html'' @ after)
                       \<or> contentType = []"
  shows "fst (readDocumentation lib fetch (Some u) maxLength startIndex sessionId)
           = Inr (formatDocumentationResult u
                    (if routed then extractContentFromHtml lib pageRaw else pageRaw) startIndex maxLength)
         \<and> (isHtmlContent pageRaw contentType \<longleftrightarrow> routed)
         \<and> (resp_content_type response = None \<longrightarrow> routed)"
proof -
  have origin: "matches_docs_origin u"
    using assms(1) by (simp add: matches_docs_origin_def starts_with_iff)
  have suffix: "ends_with u ''.html''"
    using assms(2) by (simp add: ends_with_iff)
  have ct: "or_string (resp_content_type response) [] = contentType"
    unfolding assms(6) by (simp add: or_string_def split: option.splits)
  have r: "isHtmlContent pageRaw contentType \<longleftrightarrow> routed"
    unfolding assms(7) by (rule isHtmlContent_iff)
  have none: "resp_content_type response = None \<longrightarrow> routed"
    unfolding assms(7) assms(6) by simp
  have "page_content lib pageRaw (resp_content_type response)
          = (if routed then extractContentFromHtml lib pageRaw else pageRaw)"
    by (simp add: page_content_def Let_def ct r)
  then show ?thesis
    using readDocumentation_ok[where fetch = fetch and lib = lib and maxLength = maxLength
            and startIndex = startIndex, OF origin suffix assms(3,4,5)] r none
    by simp
qed


lemma plain_not_html:
  "\<not> ((\<exists>before after. take 100 ''plain text'' = before @ ''<html'' @ after)
       \<or> (\<exists>before after. ''text/plain'' = before @ ''text/html'' @ after)
       \<or> ''text/plain'' = [])"
  unfolding js_includes_iff[symmetric] by (simp add: starts_with_def)

theorem html_routing_witness:
  "fst (readDocumentation echo_lib (serving (Some ''text/plain'') ''plain text'')
          (Some ''https://docs.aws.amazon.com/a.html'') 5000 0 ''s'')
     = Inr (formatDocumentationResult ''https://docs.aws.amazon.com/a.html'' ''plain text'' 0 5000)
   \<and> fst (readDocumentation echo_lib (serving None ''plain text'')
          (Some ''https://docs.aws.amazon.com/a.html'') 5000 0 ''s'')
     = Inr (formatDocumentationResult ''https://docs.aws.amazon.com/a.html''
              (extractContentFromHtml echo_lib ''plain text'') 0 5000)"
proof -
  let ?u = "''https://docs.aws.amazon.com/a.html''"
  have h1: "(\<exists>rest. ?u = ''http://docs.aws.amazon.com/'' @ rest) \<or> (\<exists>rest. ?u = ''https://docs.aws.amazon.com/'' @ rest)"
    by simp
  have h2: "\<exists>stem. ?u = stem @ ''.html''"
    unfolding ends_with_iff[symmetric] by (simp add: ends_with_def)
  let ?r1 = "\<lparr> resp_ok = True, resp_status = 200, resp_content_type = Some ''text/plain'',
                resp_payload = Inr ''plain text'' \<rparr> :: string response"
  let ?r2 = "\<lparr> resp_ok = True, resp_status = 200, resp_content_type = None,
                resp_payload = Inr ''plain text'' \<rparr> :: string response"
  have f1: "serving (Some ''text/plain'') ''plain text'' (page_request ?u ''s'') = Inr ?r1"
    by (simp add: serving_def)
  have f2: "serving None ''plain text'' (page_request ?u ''s'') = Inr ?r2"
    by (simp add: serving_def)
  have ok1: "resp_ok ?r1" and ok2: "resp_ok ?r2" by simp_all
  have p1: "resp_payload ?r1 = Inr ''plain text''" and p2: "resp_payload ?r2 = Inr ''plain text''" by simp_all
  have c1: "''text/plain'' = (case resp_content_type ?r1 of None \<Rightarrow> [] | Some header \<Rightarrow> header)" by simp
  have c2: "[] = (case resp_content_type ?r2 of None \<Rightarrow> [] | Some header \<Rightarrow> header)" by simp
  have r1: "False \<longleftrightarrow> (\<exists>before after. take 100 ''plain text'' = before @ ''<html'' @ after)
       \<or> (\<exists>before after. ''text/plain'' = before @ ''text/html'' @ after)
       \<or> ''text/plain'' = []"
    using plain_not_html by blast
  have r2: "True \<longleftrightarrow> (\<exists>before after. take 100 ''plain text'' = before @ ''<html'' @ after)
       \<or> (\<exists>before after. ([]::string) = before @ ''text/html'' @ after)
       \<or> ([]::string) = []"
    by simp
  show ?thesis
    using html_routing[where fetch = "serving (Some ''text/plain'') ''plain text''" and lib = echo_lib
              and maxLength = 5000 and startIndex = 0, OF h1 h2 f1 ok1 p1 c1 r1]
          html_routing[where fetch = "serving None ''plain text''" and lib = echo_lib
              and maxLength = 5000 and startIndex = 0, OF h1 h2 f2 ok2 p2 c2 r2]
    by simp
qed

text \<open>
  Claim C5 (as amended). A URL that does not start with \<open>http://docs.aws.amazon.com/\<close>
  or \<open>https://docs.aws.amazon.com/\<close>, or whose string does not end with \<open>.html\<close>,
  is rejected with a validation error and no request is issued; any other URL leads to
  exactly one request.
\<close>

theorem url_validated_before_fetch:
  "(\<not> ((\<exists>rest. u = ''http://docs.aws.amazon.com/'' @ rest) \<or> (\<exists>rest. u = ''https://docs.aws.amazon.com/'' @ rest))
       \<longrightarrow> readDocumentation lib fetch (Some u) maxLength startIndex sessionId
             = (Inl (new_Error ''URL must be from the docs.aws.amazon.com domain''), []))
   \<and> (((\<exists>rest. u = ''http://docs.aws.amazon.com/'' @ rest) \<or> (\<exists>rest. u = ''https://docs.aws.amazon.com/'' @ rest))
        \<and> \<not> (\<exists>stem. u = stem @ ''.html'')
       \<longrightarrow> readDocumentation lib fetch (Some u) maxLength startIndex sessionId
             = (Inl (new_Error ''URL must end with .html''), []))
   \<and> (((\<exists>rest. u = ''http://docs.aws.amazon.com/'' @ rest) \<or> (\<exists>rest. u = ''https://docs.aws.amazon.com/'' @ rest))
        \<and> (\<exists>stem. u = stem @ ''.html'')
       \<longrightarrow> snd (readDocumentation lib fetch (Some u) maxLength startIndex sessionId)
             = [page_request u sessionId])"
  unfolding starts_with_iff[symmetric] ends_with_iff[symmetric]
  by (simp add: readDocumentation_def matches_docs_origin_def Let_def)

theorem url_validated_before_fetch_witness:
  "readDocumentation echo_lib (serving None ''body'') (Some ''https://evil.example/a.html'') 5000 0 ''s''
     = (Inl (new_Error ''URL must be from the docs.aws.amazon.com domain''), [])
   \<and> readDocumentation echo_lib (serving None ''body'') (Some ''https://docs.aws.amazon.com/a.pdf'') 5000 0 ''s''
     = (Inl (new_Error ''URL must end with .html''), [])
   \<and> snd (readDocumentation echo_lib (serving None ''body'') (Some ''https://docs.aws.amazon.com/a.html'') 5000 0 ''s'')
     = [page_request ''https://docs.aws.amazon.com/a.html'' ''s'']"
proof -
  have a: "\<not> ((\<exists>rest. ''https://evil.example/a.html'' = ''http://docs.aws.amazon.com/'' @ rest)
              \<or> (\<exists>rest. ''https://evil.example/a.html'' = ''https://docs.aws.amazon.com/'' @ rest))"
    by simp
  have b: "((\<exists>rest. ''https://docs.aws.amazon.com/a.pdf'' = ''http://docs.aws.amazon.com/'' @ rest)
              \<or> (\<exists>rest. ''https://docs.aws.amazon.com/a.pdf'' = ''https://docs.aws.amazon.com/'' @ rest))
           \<and> \<not> (\<exists>stem. ''https://docs.aws.amazon.com/a.pdf'' = stem @ ''.html'')"
    unfolding ends_with_iff[symmetric] by (simp add: ends_with_def)
  have c: "((\<exists>rest. ''https://docs.aws.amazon.com/a.html'' = ''http://docs.aws.amazon.com/'' @ rest)
              \<or> (\<exists>rest. ''https://docs.aws.amazon.com/a.html'' = ''https://docs.aws.amazon.com/'' @ rest))
           \<and> (\<exists>stem. ''https://docs.aws.amazon.com/a.html'' = stem @ ''.html'')"
    unfolding ends_with_iff[symmetric] by (simp add: ends_with_def)
  show ?thesis
    using url_validated_before_fetch[of "''https://evil.example/a.html''" echo_lib "serving None ''body''" 5000 0 "''s''"]
      url_validated_before_fetch[of "''https://docs.aws.amazon.com/a.pdf''" echo_lib "serving None ''body''" 5000 0 "''s''"]
      url_validated_before_fetch[of "''https://docs.aws.amazon.com/a.html''" echo_lib "serving None ''body''" 5000 0 "''s''"]
      a b c
    by blast
qed

text \<open>
  The check is on the whole URL string: a URL whose path is \<open>/a\<close> and whose query
  ends with \<open>.html\<close> is accepted and fetched.
\<close>

theorem query_ending_in_html_is_fetched:
  "url_path ''https://docs.aws.amazon.com/a?b=.html'' = Some ''/a''
   \<and> \<not> spec_url_shape ''https://docs.aws.amazon.com/a?b=.html''
   \<and> readDocumentation echo_lib (serving (Some ''text/plain'') ''plain'')
        (Some ''https://docs.aws.amazon.com/a?b=.html'') 5000 0 ''s''
      = (Inr (''AWS Documentation from https://docs.aws.amazon.com/a?b=.html:'' @ [CHR 0x0A, CHR 0x0A] @ ''plain''),
         [page_request ''https://docs.aws.amazon.com/a?b=.html'' ''s''])"
  by code_simp



section \<open>Properties of the search client\<close>

lemma search_loop_ranks:
  "map rank_order (search_loop suggs bound i results)
     = map rank_order results
       @ map (\<lambda>j. int j + 1) (filter (\<lambda>j. textExcerptSuggestion (suggs ! j) \<noteq> None) [i..<nat bound])"
proof (induction suggs bound i results rule: search_loop.induct)
  case (1 suggs bound i results)
  show ?case
  proof (cases "int i < bound")
    case False
    then show ?thesis by (simp add: search_loop.simps[of suggs bound i results])
  next
    case True
    then have upt: "[i..<nat bound] = i # [Suc i..<nat bound]"
      by (simp add: upt_conv_Cons)
    show ?thesis
    proof (cases "textExcerptSuggestion (suggs ! i)")
      case None
      then show ?thesis
        using True "1.IH"(1)[OF True None]
        by (simp add: search_loop.simps[of suggs bound i results] upt)
    next
      case (Some textSuggestion)
      then show ?thesis
        using True "1.IH"(2)[OF True Some]
        by (simp add: search_loop.simps[of suggs bound i results] upt)
    qed
  qed
qed

lemma ranks_increasing:
  "sorted_wrt (<) (map (\<lambda>j. int j + 1) (filter P [i..<k]))"
proof -
  have "sorted_wrt (<) (filter P [i..<k])"
    by (rule sorted_wrt_filter) simp
  then have "sorted_wrt (\<lambda>x y. int x + 1 < int y + 1) (filter P [i..<k])"
    by (rule sorted_wrt_mono_rel[rotated]) simp
  then show ?thesis
    by (simp only: sorted_wrt_map)
qed

text \<open>
  Claim C6 (as amended). For a successful search response with \<open>n\<close> suggestions and
  \<open>k = min limit n\<close>, the \<open>rank_order\<close> values returned are the 1-based response
  positions of those among the first \<open>k\<close> suggestions that carry a
  \<open>textExcerptSuggestion\<close>, in response order: strictly increasing, within \<open>1..k\<close>, and
  exactly \<open>1..k\<close> when each of the first \<open>k\<close> suggestions carries one.
\<close>

theorem rank_order_is_response_position:
  assumes "fetch (search_request searchPhrase sessionId) = Inr response"
    and "resp_ok response" and "resp_payload response = Inr data"
    and "suggestions data = Some suggs"
    and "k = nat (min limit (int (length suggs)))"
  shows "\<exists>results. fst (searchDocumentation fetch searchPhrase limit sessionId) = Inr results
           \<and> map rank_order results
                = map (\<lambda>j. int j + 1) (filter (\<lambda>j. textExcerptSuggestion (suggs ! j) \<noteq> None) [0..<k])
           \<and> sorted_wrt (<) (map rank_order results)
           \<and> (\<forall>r \<in> set results. 1 \<le> rank_order r \<and> rank_order r \<le> int k)
           \<and> ((\<forall>j < k. textExcerptSuggestion (suggs ! j) \<noteq> None)
                 \<longrightarrow> map rank_order results = map (\<lambda>j. int j + 1) [0..<k])"
proof -
  let ?results = "parse_search_results data limit"
  let ?has = "\<lambda>j. textExcerptSuggestion (suggs ! j) \<noteq> None"
  have run: "fst (searchDocumentation fetch searchPhrase limit sessionId) = Inr ?results"
    using assms(1,2,3) by (simp add: searchDocumentation_def Let_def bind_err_def)
  have k: "nat (min (int (length suggs)) limit) = k"
    unfolding assms(5) by (simp add: min.commute)
  have ranks: "map rank_order ?results = map (\<lambda>j. int j + 1) (filter ?has [0..<k])"
    using search_loop_ranks[of suggs "min (int (length suggs)) limit" 0 "[]"] assms(4) k
    by (simp add: parse_search_results_def)
  have incr: "sorted_wrt (<) (map rank_order ?results)"
    unfolding ranks by (rule ranks_increasing)
  have range: "\<forall>r \<in> set ?results. 1 \<le> rank_order r \<and> rank_order r \<le> int k"
  proof
    fix r assume "r \<in> set ?results"
    then have "rank_order r \<in> set (map rank_order ?results)" by simp
    then have "rank_order r \<in> set (map (\<lambda>j. int j + 1) (filter ?has [0..<k]))"
      by (simp only: ranks)
    then show "1 \<le> rank_order r \<and> rank_order r \<le> int k" by auto
  qed
  have full: "(\<forall>j < k. ?has j) \<longrightarrow> map rank_order ?results = map (\<lambda>j. int j + 1) [0..<k]"
  proof
    assume "\<forall>j < k. ?has j"
    then have "filter ?has [0..<k] = [0..<k]" by (simp add: filter_id_conv)
    then show "map rank_order ?results = map (\<lambda>j. int j + 1) [0..<k]"
      by (simp only: ranks)
  qed
  show ?thesis using run ranks incr range full by blast
qed


theorem rank_order_is_response_position_witness:
  "\<exists>results. fst (searchDocumentation (serving None full_response) (Some ''s3'') 2 ''sid'') = Inr results
      \<and> map rank_order results = [1, 2]"
proof -
  let ?suggs = "[\<lparr> textExcerptSuggestion = Some (excerpt ''first'') \<rparr>,
                 \<lparr> textExcerptSuggestion = Some (excerpt ''second'') \<rparr>,
                 \<lparr> textExcerptSuggestion = Some (excerpt ''third'') \<rparr>]"
  let ?response = "\<lparr> resp_ok = True, resp_status = 200, resp_content_type = None,
                     resp_payload = Inr full_response \<rparr> :: search_data response"
  have h1: "serving None full_response (search_request (Some ''s3'') ''sid'') = Inr ?response"
    by (simp add: serving_def)
  have h2: "resp_ok ?response" by simp
  have h3: "resp_payload ?response = Inr full_response" by simp
  have h4: "suggestions full_response = Some ?suggs" by (simp add: full_response_def)
  have h5: "(2::nat) = nat (min 2 (int (length ?suggs)))" by simp
  have all: "\<forall>j < (2::nat). textExcerptSuggestion (?suggs ! j) \<noteq> None"
    by (simp add: less_2_cases_iff)
  have upt: "map (\<lambda>j. int j + 1) [0..<2] = [1, 2]" by code_simp
  from rank_order_is_response_position[where fetch = "serving None full_response", OF h1 h2 h3 h4 h5]
  obtain results where
    "fst (searchDocumentation (serving None full_response) (Some ''s3'') 2 ''sid'') = Inr results"
    and "(\<forall>j < (2::nat). textExcerptSuggestion (?suggs ! j) \<noteq> None)
           \<longrightarrow> map rank_order results = map (\<lambda>j. int j + 1) [0..<2]"
    by blast
  then show ?thesis using all upt by auto
qed

text \<open>
  A suggestion without a \<open>textExcerptSuggestion\<close> is skipped but still counted: with two
  suggestions and limit 10 the only result has rank 2.
\<close>

theorem skipped_suggestion_leaves_gap:
  "suggestions gap_response = Some [\<lparr> textExcerptSuggestion = None \<rparr>,
                                    \<lparr> textExcerptSuggestion = Some (excerpt ''second'') \<rparr>]
   \<and> fst (searchDocumentation (serving None gap_response) (Some ''s3'') 10 ''sid'')
       = Inr [\<lparr> rank_order = 2, sr_url = ''https://docs.aws.amazon.com/x.html'',
                sr_title = ''second'', sr_context = Some ''summary'' \<rparr>]"
  by code_simp



section \<open>Properties of the dispatcher\<close>

lemma id_truthy_iff: "id_truthy (Some mid) \<longleftrightarrow> mid \<noteq> IdNum 0 \<and> mid \<noteq> IdStr []"
  by (cases mid) (auto simp: id_truthy_def)

lemma handleMessage_with_id:
  assumes "msg_id message = Some mid" and "mid \<noteq> IdNum 0" and "mid \<noteq> IdStr []"
  shows "handleMessage up now message =
     (if msg_method message = Some ''initialize'' then (Inr (ResultEnvelope mid InitializeResult), [])
      else if msg_method message = Some ''tools/list''
        then (Inr (ResultEnvelope mid (ToolsListResult TOOL_DEFINITIONS)), [])
      else if msg_method message = Some ''tools/call'' then
        (let toolName = (case msg_params message of None \<Rightarrow> None | Some p \<Rightarrow> param_name p);
             args = (case msg_params message of None \<Rightarrow> no_args
                     | Some p \<Rightarrow> (case param_arguments p of None \<Rightarrow> no_args | Some a \<Rightarrow> a))
         in if or_string toolName [] = [] \<or> or_string toolName [] \<notin> set registered_tools
            then (Inr (ErrorEnvelope mid (- 32601) (''Unknown tool: '' @ template_string toolName)), [])
            else
              let sessionId = ''mcp-session-'' @ nat_to_string now;
                  outcome = invoke_tool up sessionId (or_string toolName []) args
              in (case fst outcome of
                    Inr result \<Rightarrow> (Inr (ResultEnvelope mid (ToolCallResult result)), snd outcome)
                  | Inl error \<Rightarrow> (Inr (ErrorEnvelope mid (- 32603) (err_message error)), snd outcome)))
      else (Inr (ErrorEnvelope mid (- 32601) (''Unknown method: '' @ template_string (msg_method message))), []))"
  using assms id_truthy_iff[of mid]
  unfolding handleMessage_def by simp

text \<open>
  Claim C7 (as amended). For every \<open>tools/call\<close> message whose id is present and is
  neither 0 nor the empty string, and whose \<open>params.name\<close> is absent or is not the name
  of a registered tool, \<open>handleMessage\<close> returns the error envelope with code -32601 and
  issues no request.
\<close>

theorem unknown_tool_not_found:
  assumes "msg_id message = Some mid" and "mid \<noteq> IdNum 0" and "mid \<noteq> IdStr []"
    and "msg_method message = Some ''tools/call''"
    and "toolName = (case msg_params message of None \<Rightarrow> None | Some p \<Rightarrow> param_name p)"
    and "toolName = None
         \<or> (\<exists>name. toolName = Some name
               \<and> name \<notin> {''read_documentation'', ''search_documentation'', ''recommend''})"
  shows "handleMessage up now message
           = (Inr (ErrorEnvelope mid (- 32601)
                     (''Unknown tool: '' @ (case toolName of None \<Rightarrow> ''undefined'' | Some name \<Rightarrow> name))), [])"
proof -
  have unknown: "or_string toolName [] = [] \<or> or_string toolName [] \<notin> set registered_tools"
    using assms(6) by (auto simp: or_string_def registered_tools_def)
  have "template_string toolName = (case toolName of None \<Rightarrow> ''undefined'' | Some name \<Rightarrow> name)"
    by (simp add: template_string_def)
  then show ?thesis
    using unknown assms(4) assms(5)
    by (simp add: handleMessage_with_id[OF assms(1,2,3)] Let_def)
qed

theorem unknown_tool_not_found_witness:
  "handleMessage example_upstream 1700 (tools_call (Some (IdNum 1)) (Some ''bogus'') None)
     = (Inr (ErrorEnvelope (IdNum 1) (- 32601) ''Unknown tool: bogus''), [])
   \<and> handleMessage example_upstream 1700 (tools_call (Some (IdStr ''a'')) None None)
     = (Inr (ErrorEnvelope (IdStr ''a'') (- 32601) ''Unknown tool: undefined''), [])"
proof -
  let ?m1 = "tools_call (Some (IdNum 1)) (Some ''bogus'') None"
  let ?m2 = "tools_call (Some (IdStr ''a'')) None None"
  have a1: "msg_id ?m1 = Some (IdNum 1)" and a2: "IdNum 1 \<noteq> IdNum 0" and a3: "IdNum 1 \<noteq> IdStr []"
    and a4: "msg_method ?m1 = Some ''tools/call''"
    and a5: "Some ''bogus'' = (case msg_params ?m1 of None \<Rightarrow> None | Some p \<Rightarrow> param_name p)"
    and a6: "Some ''bogus'' = None
         \<or> (\<exists>name. Some ''bogus'' = Some name
               \<and> name \<notin> {''read_documentation'', ''search_documentation'', ''recommend''})"
    by (simp_all add: tools_call_def)
  have b1: "msg_id ?m2 = Some (IdStr ''a'')" and b2: "IdStr ''a'' \<noteq> IdNum 0" and b3: "IdStr ''a'' \<noteq> IdStr []"
    and b4: "msg_method ?m2 = Some ''tools/call''"
    and b5: "None = (case msg_params ?m2 of None \<Rightarrow> None | Some p \<Rightarrow> param_name p)"
    and b6: "(None :: string option) = None
         \<or> (\<exists>name. None = Some name
               \<and> name \<notin> {''read_documentation'', ''search_documentation'', ''recommend''})"
    by (simp_all add: tools_call_def)
  show ?thesis
    using unknown_tool_not_found[OF a1 a2 a3 a4 a5 a6, of example_upstream 1700]
      unknown_tool_not_found[OF b1 b2 b3 b4 b5 b6, of example_upstream 1700]
    by simp
qed

text \<open>
  Without an id, or with the id 0, the guard at the top of \<open>handleMessage\<close> throws before
  the tool name is looked at.
\<close>

theorem unknown_tool_without_id_throws:
  "handleMessage example_upstream 1700 (tools_call None (Some ''bogus'') None)
     = (Inl (JsError ''Error'' ''Message must have an id''), [])
   \<and> handleMessage example_upstream 1700 (tools_call (Some (IdNum 0)) (Some ''bogus'') None)
     = (Inl (JsError ''Error'' ''Message must have an id''), [])"
  by (simp add: handleMessage_def tools_call_def new_Error_def id_truthy_def)

text \<open>
  The stand-alone worker's dispatcher reports a missing or unknown tool name as an internal
  error (code -32603): \<open>executeTool\<close> throws and \<open>handleMCPRequest\<close> catches.
\<close>

lemma worker_unknown_tool_internal_error:
  assumes "msg_method request = Some ''tools/call''"
    and "toolName = (case msg_params request of None \<Rightarrow> None | Some p \<Rightarrow> param_name p)"
  shows "toolName = None \<or> toolName = Some [] \<Longrightarrow>
           handleMCPRequest tools request = WorkerError (msg_id request) (- 32603) ''Tool name is required''"
    and "toolName = Some name \<Longrightarrow> name \<noteq> [] \<Longrightarrow>
         name \<notin> {''read_documentation'', ''search_documentation'', ''recommend'', ''hello''} \<Longrightarrow>
           handleMCPRequest tools request = WorkerError (msg_id request) (- 32603) (''Unknown tool: '' @ name)"
proof -
  show "toolName = None \<or> toolName = Some [] \<Longrightarrow>
           handleMCPRequest tools request = WorkerError (msg_id request) (- 32603) ''Tool name is required''"
    using assms
    by (auto simp: handleMCPRequest_def Let_def or_string_def new_Error_def)
  show "toolName = Some name \<Longrightarrow> name \<noteq> [] \<Longrightarrow>
         name \<notin> {''read_documentation'', ''search_documentation'', ''recommend'', ''hello''} \<Longrightarrow>
           handleMCPRequest tools request = WorkerError (msg_id request) (- 32603) (''Unknown tool: '' @ name)"
    using assms(1) assms(2)[symmetric]
    by (simp add: handleMCPRequest_def Let_def or_string_def new_Error_def executeTool_def bind_err_def)
qed

lemma worker_unknown_tool_example:
  "handleMCPRequest example_worker_tools (tools_call (Some (IdNum 1)) (Some ''bogus'') None)
     = WorkerError (Some (IdNum 1)) (- 32603) ''Unknown tool: bogus''"
  by (simp add: handleMCPRequest_def tools_call_def Let_def or_string_def new_Error_def executeTool_def bind_err_def)

text \<open>
  Claim C9 (as amended). For every message whose id is present and is neither 0 nor the empty
  string, \<open>handleMessage\<close> returns an envelope and does not throw; and when the handler of a
  registered tool fails, the envelope is the error with code -32603 carrying the failure's
  message.
\<close>

theorem dispatcher_catches_handler_failures:
  assumes "msg_id message = Some mid" and "mid \<noteq> IdNum 0" and "mid \<noteq> IdStr []"
  shows "(\<exists>env. fst (handleMessage up now message) = Inr env)
       \<and> (\<forall>toolName args e reqs.
            msg_method message = Some ''tools/call''
            \<and> msg_params message = Some \<lparr> param_name = Some toolName, param_arguments = args \<rparr>
            \<and> toolName \<in> {''read_documentation'', ''search_documentation'', ''recommend''}
            \<and> invoke_tool up (''mcp-session-'' @ nat_to_string now) toolName
                 (case args of None \<Rightarrow> no_args | Some a \<Rightarrow> a) = (Inl e, reqs)
            \<longrightarrow> handleMessage up now message = (Inr (ErrorEnvelope mid (- 32603) (err_message e)), reqs))"
proof (intro conjI allI impI)
  show "\<exists>env. fst (handleMessage up now message) = Inr env"
    by (simp add: handleMessage_with_id[OF assms] Let_def split: sum.splits)
next
  fix toolName args e reqs
  assume a: "msg_method message = Some ''tools/call''
            \<and> msg_params message = Some \<lparr> param_name = Some toolName, param_arguments = args \<rparr>
            \<and> toolName \<in> {''read_documentation'', ''search_documentation'', ''recommend''}
            \<and> invoke_tool up (''mcp-session-'' @ nat_to_string now) toolName
                 (case args of None \<Rightarrow> no_args | Some a \<Rightarrow> a) = (Inl e, reqs)"
  then have name: "or_string (Some toolName) [] = toolName" and known: "toolName \<in> set registered_tools"
    and nonempty: "toolName \<noteq> []"
    by (auto simp: or_string_def registered_tools_def)
  show "handleMessage up now message = (Inr (ErrorEnvelope mid (- 32603) (err_message e)), reqs)"
    using a name known nonempty
    by (simp add: handleMessage_with_id[OF assms] Let_def)
qed

text \<open>A message without an id makes \<open>handleMessage\<close> throw, whatever its method.\<close>

theorem message_without_id_throws:
  "handleMessage example_upstream 1700 \<lparr> msg_id = None, msg_method = Some ''initialize'', msg_params = None \<rparr>
     = (Inl (JsError ''Error'' ''Message must have an id''), [])"
  by (simp add: handleMessage_def new_Error_def)

lemma invoke_foreign_url:
  "invoke_tool example_upstream sessionId ''read_documentation''
     (no_args\<lparr>arg_url := Some ''https://example.com/a.html''\<rparr>)
   = (Inl (new_Error ''URL must be from the docs.aws.amazon.com domain''), [])"
  by (simp add: invoke_tool_def readDocumentation_def matches_docs_origin_def starts_with_def
        map_outcome_def no_args_def)

theorem dispatcher_catches_handler_failures_witness:
  "handleMessage example_upstream 1700
     (tools_call (Some (IdNum 1)) (Some ''read_documentation'')
        (Some (no_args\<lparr>arg_url := Some ''https://example.com/a.html''\<rparr>)))
   = (Inr (ErrorEnvelope (IdNum 1) (- 32603) ''URL must be from the docs.aws.amazon.com domain''), [])"
proof -
  let ?args = "no_args\<lparr>arg_url := Some ''https://example.com/a.html''\<rparr>"
  let ?m = "tools_call (Some (IdNum 1)) (Some ''read_documentation'') (Some ?args)"
  have h1: "msg_id ?m = Some (IdNum 1)" and h2: "IdNum 1 \<noteq> IdNum 0" and h3: "IdNum 1 \<noteq> IdStr []"
    by (simp_all add: tools_call_def)
  have pre: "msg_method ?m = Some ''tools/call''
            \<and> msg_params ?m = Some \<lparr> param_name = Some ''read_documentation'', param_arguments = Some ?args \<rparr>
            \<and> ''read_documentation'' \<in> {''read_documentation'', ''search_documentation'', ''recommend''}
            \<and> invoke_tool example_upstream (''mcp-session-'' @ nat_to_string 1700) ''read_documentation''
                 (case Some ?args of None \<Rightarrow> no_args | Some a \<Rightarrow> a)
               = (Inl (new_Error ''URL must be from the docs.aws.amazon.com domain''), [])"
    by (simp add: tools_call_def invoke_foreign_url)
  from dispatcher_catches_handler_failures[OF h1 h2 h3, of example_upstream 1700] pre
  have "handleMessage example_upstream 1700 ?m
          = (Inr (ErrorEnvelope (IdNum 1) (- 32603)
                    (err_message (new_Error ''URL must be from the docs.aws.amazon.com domain''))), [])"
    by blast
  then show ?thesis by (simp add: new_Error_def)
qed

lemma handleMessage_never_invalid_params:
  "fst (handleMessage up now message) \<noteq> Inr (ErrorEnvelope i (- 32602) msg)"
  unfolding handleMessage_def Let_def
  by (simp split: option.splits sum.splits)

lemma session_1700: "nat_to_string 1700 = ''1700''"
  by code_simp

text \<open>
  Claim C8. A \<open>tools/call\<close> request that names a known tool and omits the argument its
  schema requires should be answered with the code -32602. The dispatcher does not do so:
  it checks no argument against the schema. \<open>read_documentation\<close> without \<open>url\<close> is
  answered with -32603 (the handler fails on the undefined \<open>url\<close>), and
  \<open>search_documentation\<close> without \<open>search_phrase\<close> and \<open>recommend\<close> without \<open>url\<close> are
  carried out, the upstream request built from the undefined argument.
\<close>

theorem missing_required_argument_not_rejected:
  "handleMessage example_upstream 1700 (tools_call (Some (IdNum 1)) (Some ''read_documentation'') None)
     = (Inr (ErrorEnvelope (IdNum 1) (- 32603)
               (''Cannot read properties of undefined (reading '' @ [CHR 0x27] @ ''match'' @ [CHR 0x27] @ '')'')), [])
   \<and> handleMessage example_upstream 1700 (tools_call (Some (IdNum 1)) (Some ''search_documentation'') None)
     = (Inr (ResultEnvelope (IdNum 1) (ToolCallResult (SearchValue (parse_search_results full_response 10)))),
        [search_request None ''mcp-session-1700''])
   \<and> handleMessage example_upstream 1700 (tools_call (Some (IdNum 1)) (Some ''recommend'') None)
     = (Inr (ResultEnvelope (IdNum 1) (ToolCallResult (RecommendValue []))),
        [recommend_request None ''mcp-session-1700''])
   \<and> req_url (recommend_request None ''mcp-session-1700'')
     = ''https://contentrecs-api.docs.aws.amazon.com/v1/recommendations?path=undefined&session=mcp-session-1700''"
  by (simp add: handleMessage_def tools_call_def id_truthy_def Let_def or_string_def or_number_def
        registered_tools_def invoke_tool_def readDocumentation_def searchDocumentation_def recommend_def
        map_outcome_def no_args_def undefined_property_error_def example_upstream_def serving_def
        bind_err_def session_1700 parseRecommendationResults_def recommend_request_def
        template_string_def RECOMMENDATIONS_API_URL_def)

text \<open>
  The HTTP endpoint does the same: it answers -32602 only when the tool name itself is
  missing, and a missing \<open>url\<close> surfaces as -32603.
\<close>

lemma endpoint_invalid_params_only_for_missing_name:
  assumes "fst (tools_call_endpoint up (Inr params) sessionHeader freshId sessions) = (status, ErrorBody (- 32602) msg)"
  shows "or_string (case params of None \<Rightarrow> None | Some p \<Rightarrow> param_name p) [] = []"
  using assms
  unfolding tools_call_endpoint_def Let_def
  by (auto split: if_splits sum.splits)

lemma endpoint_read_documentation_without_url:
  assumes "arg_url (case arguments of None \<Rightarrow> no_args | Some a \<Rightarrow> a) = None"
  shows "fst (tools_call_endpoint up
                (Inr (Some \<lparr> param_name = Some ''read_documentation'', param_arguments = arguments \<rparr>))
                sessionHeader freshId sessions)
           = (500, ErrorBody (- 32603)
                (''Cannot read properties of undefined (reading '' @ [CHR 0x27] @ ''match'' @ [CHR 0x27] @ '')''))"
  using assms
  unfolding tools_call_endpoint_def Let_def
  by (simp add: or_string_def invoke_tool_def readDocumentation_def map_outcome_def undefined_property_error_def)


end
